theory Spec2Isabelle
  imports Main "HOL-Library.Word"
begin

section \<open>ParallelZipFile: a shallow embedding of \<open>parallelzipfile.py\<close>\<close>

text \<open>
  The module reads a ZIP archive through a read-only memory mapping. The embedding keeps
  the source's names. A mapping's content is a list of bytes, Python's unbounded
  integers are natural numbers, a raised exception is the left summand of a sum type,
  and the insertion-ordered dictionary \<open>files\<close> is a list of pairs with distinct keys.
  The text codecs, zlib and lzma belong to Python's standard library, not to the module:
  the functions that call them take them as arguments. An \<open>assert\<close> is a check that
  raises \<open>AssertionError\<close>, as Python runs it unless it is started with \<open>-O\<close>. Offsets and
  sizes are those the parser produces: they are never negative.
\<close>

subsection \<open>Bytes, slices and \<open>struct.unpack\<close>\<close>

type_synonym byte = "8 word"
type_synonym bytes = "byte list"
type_synonym str = "nat list" \<comment> \<open>a Python \<open>str\<close>: its code points\<close>

text \<open>
  \<open>s[a:b]\<close> for indices that are not negative: Python clamps both to the length and
  returns the empty sequence when \<open>b \<le> a\<close>; it never raises. \<open>s[a:]\<close> is \<open>drop a s\<close>
  and \<open>s[:b]\<close> is \<open>take b s\<close>.
\<close>

definition py_slice :: "'a list \<Rightarrow> nat \<Rightarrow> nat \<Rightarrow> 'a list" where
  "py_slice s a b = take (b - a) (drop a s)"

text \<open>\<open>s[-k:]\<close> for \<open>k > 0\<close>: the last \<open>k\<close> elements, all of \<open>s\<close> when it is shorter.\<close>

definition last_n :: "nat \<Rightarrow> 'a list \<Rightarrow> 'a list" where
  "last_n k s = drop (length s - k) s"

text \<open>A little-endian unsigned integer (the formats \<open><H\<close>, \<open><I\<close>, \<open><Q\<close>).\<close>

fun le :: "bytes \<Rightarrow> nat" where
  "le [] = 0"
| "le (b # bs) = unat b + 256 * le bs"

text \<open>The field of \<open>n\<close> bytes at offset \<open>off\<close> of an unpacked record.\<close>

definition field :: "bytes \<Rightarrow> nat \<Rightarrow> nat \<Rightarrow> nat" where
  "field s off n = le (py_slice s off (off + n))"

text \<open>
  \<open>s.rfind(sub)\<close>: the highest index at which \<open>sub\<close> occurs in \<open>s\<close>. Python returns
  \<open>-1\<close> when there is none; the model returns \<open>None\<close>. \<open>rfind_at s sub i\<close> searches
  \<open>s\<close>, the part of the sequence that starts at index \<open>i\<close>: a later occurrence wins.
\<close>

fun rfind_at :: "'a list \<Rightarrow> 'a list \<Rightarrow> nat \<Rightarrow> nat option" where
  "rfind_at [] sub i = (if sub = [] then Some i else None)"
| "rfind_at (x # xs) sub i =
     (case rfind_at xs sub (Suc i) of
        Some j \<Rightarrow> Some j
      | None \<Rightarrow> if take (length sub) (x # xs) = sub then Some i else None)"

definition rfind :: "'a list \<Rightarrow> 'a list \<Rightarrow> nat option" where
  "rfind s sub = rfind_at s sub 0"

text \<open>\<open>b.rstrip(b"\0")\<close>: the bytes without their trailing NUL bytes.\<close>

definition rstrip_nul :: "bytes \<Rightarrow> bytes" where
  "rstrip_nul b = rev (dropWhile (\<lambda>x. x = 0) (rev b))"

subsection \<open>Exceptions\<close>

text \<open>
  One constructor for each exception the module raises or lets through. The module
  raises \<open>ValueError\<close> with three messages of its own; \<open>mmap\<close> raises it for an empty
  file and for a closed mapping.
\<close>

datatype message =
    DoesNotExist str              \<comment> \<open>\<open>f"{filename} does not exist"\<close>\<close>
  | HeaderTooSmall str nat        \<comment> \<open>\<open>f"Header for {filename} too small ({len(header)} bytes, ...)"\<close>\<close>
  | CouldNotDecode bytes          \<comment> \<open>\<open>"Could not decode filename " + str(filename_bytes)\<close>\<close>
  | CannotMmapEmptyFile
  | MmapClosed

datatype error =
    AssertionError                \<comment> \<open>a failed \<open>assert\<close>\<close>
  | StructError                   \<comment> \<open>\<open>struct.error\<close>: the buffer has not the size of the format\<close>
  | ValueError message
  | NotImplementedError nat       \<comment> \<open>\<open>f"Compression method {compression} not implemented"\<close>\<close>
  | FileNotFoundError
  | ZlibError
  | LZMAError

subsection \<open>File names\<close>

text \<open>
  The three encodings the parser tries. A codec decodes bytes in one encoding to a string,
  or raises \<open>UnicodeDecodeError\<close> (the result \<open>None\<close>).
\<close>

datatype encoding = UTF8 | Windows1252 | CP437

type_synonym codec = "encoding \<Rightarrow> bytes \<Rightarrow> str option"

text \<open>
  The loop \<open>for encoding in [...]: try: ... break; except UnicodeDecodeError: pass;
  else: raise ValueError(...)\<close>. Each round decodes \<open>filename_bytes.rstrip(b"\0")\<close>; the
  message of the \<open>ValueError\<close> holds \<open>filename_bytes\<close> as they are stored.
\<close>

fun try_encodings :: "codec \<Rightarrow> encoding list \<Rightarrow> bytes \<Rightarrow> error + str" where
  "try_encodings decode [] filename_bytes = Inl (ValueError (CouldNotDecode filename_bytes))"
| "try_encodings decode (encoding # rest) filename_bytes =
     (case decode encoding (rstrip_nul filename_bytes) of
        Some name \<Rightarrow> Inr name
      | None \<Rightarrow> try_encodings decode rest filename_bytes)"

definition decode_filename :: "codec \<Rightarrow> bytes \<Rightarrow> error + str" where
  "decode_filename decode filename_bytes =
     try_encodings decode [UTF8, Windows1252, CP437] filename_bytes"

subsection \<open>Python's codecs\<close>

text \<open>
  The codecs \<open>utf-8\<close>, \<open>windows-1252\<close> and \<open>CP437\<close> of Python's standard library in
  their default mode (\<open>errors="strict"\<close>), which is how the parser calls them. UTF-8
  accepts the well-formed sequences only: no overlong form, no surrogate, nothing above
  \<open>U+10FFFF\<close>.
\<close>

definition continuation :: "nat \<Rightarrow> bool" where
  "continuation c = (0x80 \<le> c \<and> c \<le> 0xBF)"

fun utf8_decode :: "bytes \<Rightarrow> str option" where
  "utf8_decode [] = Some []"
| "utf8_decode [b] = (if unat b < 0x80 then Some [unat b] else None)"
| "utf8_decode [b, b1] =
     (let c = unat b; c1 = unat b1 in
      if c < 0x80 then map_option ((#) c) (utf8_decode [b1])
      else if 0xC2 \<le> c \<and> c \<le> 0xDF \<and> continuation c1
        then Some [(c - 0xC0) * 64 + (c1 - 0x80)]
      else None)"
| "utf8_decode [b, b1, b2] =
     (let c = unat b; c1 = unat b1; c2 = unat b2 in
      if c < 0x80 then map_option ((#) c) (utf8_decode [b1, b2])
      else if 0xC2 \<le> c \<and> c \<le> 0xDF \<and> continuation c1
        then map_option ((#) ((c - 0xC0) * 64 + (c1 - 0x80))) (utf8_decode [b2])
      else if 0xE0 \<le> c \<and> c \<le> 0xEF
          \<and> (if c = 0xE0 then 0xA0 else 0x80) \<le> c1 \<and> c1 \<le> (if c = 0xED then 0x9F else 0xBF)
          \<and> continuation c2
        then Some [(c - 0xE0) * 4096 + (c1 - 0x80) * 64 + (c2 - 0x80)]
      else None)"
| "utf8_decode (b # b1 # b2 # b3 # bs) =
     (let c = unat b; c1 = unat b1; c2 = unat b2; c3 = unat b3 in
      if c < 0x80 then map_option ((#) c) (utf8_decode (b1 # b2 # b3 # bs))
      else if 0xC2 \<le> c \<and> c \<le> 0xDF \<and> continuation c1
        then map_option ((#) ((c - 0xC0) * 64 + (c1 - 0x80))) (utf8_decode (b2 # b3 # bs))
      else if 0xE0 \<le> c \<and> c \<le> 0xEF
          \<and> (if c = 0xE0 then 0xA0 else 0x80) \<le> c1 \<and> c1 \<le> (if c = 0xED then 0x9F else 0xBF)
          \<and> continuation c2
        then map_option ((#) ((c - 0xE0) * 4096 + (c1 - 0x80) * 64 + (c2 - 0x80)))
               (utf8_decode (b3 # bs))
      else if 0xF0 \<le> c \<and> c \<le> 0xF4
          \<and> (if c = 0xF0 then 0x90 else 0x80) \<le> c1 \<and> c1 \<le> (if c = 0xF4 then 0x8F else 0xBF)
          \<and> continuation c2 \<and> continuation c3
        then map_option ((#) ((c - 0xF0) * 262144 + (c1 - 0x80) * 4096 + (c2 - 0x80) * 64
               + (c3 - 0x80))) (utf8_decode bs)
      else None)"

text \<open>A codec that decodes byte by byte fails when one byte has no character.\<close>

fun decode_bytewise :: "(byte \<Rightarrow> nat option) \<Rightarrow> bytes \<Rightarrow> str option" where
  "decode_bytewise f [] = Some []"
| "decode_bytewise f (b # bs) =
     (case f b of
        None \<Rightarrow> None
      | Some c \<Rightarrow> map_option ((#) c) (decode_bytewise f bs))"

text \<open>Windows-1252: the bytes \<open>0x80\<close> to \<open>0x9F\<close>; five of them have no character.\<close>

definition cp1252_table :: "nat option list" where
  "cp1252_table = [
      Some 0x20AC, None, Some 0x201A, Some 0x0192, Some 0x201E, Some 0x2026, Some 0x2020, Some 0x2021,
      Some 0x02C6, Some 0x2030, Some 0x0160, Some 0x2039, Some 0x0152, None, Some 0x017D, None,
      None, Some 0x2018, Some 0x2019, Some 0x201C, Some 0x201D, Some 0x2022, Some 0x2013, Some 0x2014,
      Some 0x02DC, Some 0x2122, Some 0x0161, Some 0x203A, Some 0x0153, None, Some 0x017E, Some 0x0178]"

definition cp1252_char :: "byte \<Rightarrow> nat option" where
  "cp1252_char b =
     (let c = unat b in
      if c < 0x80 \<or> 0xA0 \<le> c then Some c else cp1252_table ! (c - 0x80))"

text \<open>Code page 437: the bytes \<open>0x80\<close> to \<open>0xFF\<close>; every byte has a character.\<close>

definition cp437_table :: "nat list" where
  "cp437_table = [
      0x00C7, 0x00FC, 0x00E9, 0x00E2, 0x00E4, 0x00E0, 0x00E5, 0x00E7,
      0x00EA, 0x00EB, 0x00E8, 0x00EF, 0x00EE, 0x00EC, 0x00C4, 0x00C5,
      0x00C9, 0x00E6, 0x00C6, 0x00F4, 0x00F6, 0x00F2, 0x00FB, 0x00F9,
      0x00FF, 0x00D6, 0x00DC, 0x00A2, 0x00A3, 0x00A5, 0x20A7, 0x0192,
      0x00E1, 0x00ED, 0x00F3, 0x00FA, 0x00F1, 0x00D1, 0x00AA, 0x00BA,
      0x00BF, 0x2310, 0x00AC, 0x00BD, 0x00BC, 0x00A1, 0x00AB, 0x00BB,
      0x2591, 0x2592, 0x2593, 0x2502, 0x2524, 0x2561, 0x2562, 0x2556,
      0x2555, 0x2563, 0x2551, 0x2557, 0x255D, 0x255C, 0x255B, 0x2510,
      0x2514, 0x2534, 0x252C, 0x251C, 0x2500, 0x253C, 0x255E, 0x255F,
      0x255A, 0x2554, 0x2569, 0x2566, 0x2560, 0x2550, 0x256C, 0x2567,
      0x2568, 0x2564, 0x2565, 0x2559, 0x2558, 0x2552, 0x2553, 0x256B,
      0x256A, 0x2518, 0x250C, 0x2588, 0x2584, 0x258C, 0x2590, 0x2580,
      0x03B1, 0x00DF, 0x0393, 0x03C0, 0x03A3, 0x03C3, 0x00B5, 0x03C4,
      0x03A6, 0x0398, 0x03A9, 0x03B4, 0x221E, 0x03C6, 0x03B5, 0x2229,
      0x2261, 0x00B1, 0x2265, 0x2264, 0x2320, 0x2321, 0x00F7, 0x2248,
      0x00B0, 0x2219, 0x00B7, 0x221A, 0x207F, 0x00B2, 0x25A0, 0x00A0]"

definition cp437_char :: "byte \<Rightarrow> nat option" where
  "cp437_char b =
     (let c = unat b in
      if c < 0x80 then Some c else Some (cp437_table ! (c - 0x80)))"

fun python_codec :: codec where
  "python_codec UTF8 b = utf8_decode b"
| "python_codec Windows1252 b = decode_bytewise cp1252_char b"
| "python_codec CP437 b = decode_bytewise cp437_char b"

subsection \<open>The zip64 extra field\<close>

text \<open>
  One of the three blocks \<open>if v == 0xFFFFFFFF: assert len(extra) >= 8; v = ...;
  extra = extra[8:]\<close>. For the two sizes the new value is \<open>struct.unpack("<Q", extra[:8])\<close>;
  for the header offset it is \<open>struct.unpack("<Q", extra[-8:])\<close>. Each returns the value
  and the rest of \<open>extra\<close>.
\<close>

definition zip64_first :: "nat \<Rightarrow> bytes \<Rightarrow> error + nat \<times> bytes" where
  "zip64_first v extra =
     (if v = 0xFFFFFFFF then
        (if length extra \<ge> 8 then Inr (le (take 8 extra), drop 8 extra)
         else Inl AssertionError)
      else Inr (v, extra))"

definition zip64_last :: "nat \<Rightarrow> bytes \<Rightarrow> error + nat \<times> bytes" where
  "zip64_last v extra =
     (if v = 0xFFFFFFFF then
        (if length extra \<ge> 8 then Inr (le (last_n 8 extra), drop 8 extra)
         else Inl AssertionError)
      else Inr (v, extra))"

text \<open>
  Lines 143 to 158: \<open>extra = extra[4:]\<close>, then the uncompressed size, the compressed size
  and the header offset in this order. The result is
  \<open>(uncompressed_size, compressed_size, offset)\<close>.
\<close>

definition zip64_fields :: "nat \<Rightarrow> nat \<Rightarrow> nat \<Rightarrow> bytes \<Rightarrow> error + nat \<times> nat \<times> nat" where
  "zip64_fields uncompressed_size compressed_size offset extra =
     (case zip64_first uncompressed_size (drop 4 extra) of
        Inl e \<Rightarrow> Inl e
      | Inr (uncompressed_size', extra1) \<Rightarrow>
          (case zip64_first compressed_size extra1 of
             Inl e \<Rightarrow> Inl e
           | Inr (compressed_size', extra2) \<Rightarrow>
               (case zip64_last offset extra2 of
                  Inl e \<Rightarrow> Inl e
                | Inr (offset', extra3) \<Rightarrow>
                    Inr (uncompressed_size', compressed_size', offset'))))"

subsection \<open>ZipInfo and the dictionary of files\<close>

record ZipInfo =
  filename :: str
  header_offset :: nat
  CRC :: nat
  compress_size :: nat
  file_size :: nat

definition is_dir :: "ZipInfo \<Rightarrow> bool" where
  "is_dir info = (filename info \<noteq> [] \<and> last (filename info) = 47)"

text \<open>
  A Python \<open>dict\<close> keeps its keys in the order of their first insertion; \<open>d[k] = v\<close> for
  a key that \<open>d\<close> has replaces the value and leaves the key where it is.
\<close>

type_synonym 'v dict = "(str \<times> 'v) list"

fun setitem :: "'v dict \<Rightarrow> str \<Rightarrow> 'v \<Rightarrow> 'v dict" where
  "setitem [] k v = [(k, v)]"
| "setitem ((k', v') # d) k v =
     (if k' = k then (k, v) # d else (k', v') # setitem d k v)"

definition dict_keys :: "'v dict \<Rightarrow> str list" where
  "dict_keys d = map fst d"

definition dict_values :: "'v dict \<Rightarrow> 'v list" where
  "dict_values d = map snd d"

subsection \<open>The directory parser\<close>

definition PK56 :: bytes where "PK56 = [0x50, 0x4B, 5, 6]"
definition PK67 :: bytes where "PK67 = [0x50, 0x4B, 6, 7]"
definition PK66 :: bytes where "PK66 = [0x50, 0x4B, 6, 6]"
definition PK12 :: bytes where "PK12 = [0x50, 0x4B, 1, 2]"

definition max_eocd_size :: nat where
  "max_eocd_size = 22 + 65536"

text \<open>
  Lines 50 to 96: the end-of-central-directory record in the last \<open>max_eocd_size\<close> bytes,
  and the zip64 record when its locator is there. \<open>struct.unpack\<close> raises when the
  buffer has not the size of its format. The result is \<open>(num_files, directory_offset)\<close>,
  the two values the rest of the function uses.
\<close>

definition read_eocd :: "bytes \<Rightarrow> error + nat \<times> nat" where
  "read_eocd m =
     (let end' = last_n max_eocd_size m in
      case rfind end' PK56 of
        None \<Rightarrow> Inl AssertionError
      | Some offset32 \<Rightarrow>
          (let eocd = py_slice end' offset32 (offset32 + 22) in
           if length eocd \<noteq> 22 then Inl StructError
           else if take 4 eocd \<noteq> PK56 then Inl AssertionError
           else
             (let num_files = field eocd 8 2;
                  directory_offset = field eocd 16 4
              in case rfind end' PK67 of
                   None \<Rightarrow> Inr (num_files, directory_offset)
                 | Some locator_offset \<Rightarrow>
                     (let q = py_slice end' (locator_offset + 8) (locator_offset + 16) in
                      if length q \<noteq> 8 then Inl StructError
                      else
                        (let offset = le q;
                             eocd64_data = py_slice m offset (offset + 56)
                         in if length eocd64_data \<noteq> 56 then Inl StructError
                            else if take 4 eocd64_data \<noteq> PK66 then Inl AssertionError
                            else Inr (field eocd64_data 24 8, field eocd64_data 48 8))))))"

text \<open>
  One round of the loop over the central directory (lines 103 to 166): the \<open>ZipInfo\<close> of
  the header at \<open>mmap_offset\<close>, and \<open>mmap_offset\<close> after it. The format
  \<open><4s6H3I5HII\<close> puts \<open>crc32\<close> at byte 16, \<open>compressed_size\<close> at 20,
  \<open>uncompressed_size\<close> at 24, \<open>filename_length\<close> at 28, \<open>extra_length\<close> at 30,
  \<open>comment_length\<close> at 32 and \<open>offset\<close> at 42 of its 46 bytes.
\<close>

definition read_header :: "codec \<Rightarrow> bytes \<Rightarrow> nat \<Rightarrow> error + ZipInfo \<times> nat" where
  "read_header decode m mmap_offset =
     (let header = py_slice m mmap_offset (mmap_offset + 46) in
      if length header \<noteq> 46 then Inl StructError
      else if take 4 header \<noteq> PK12 then Inl AssertionError
      else
        (let crc32 = field header 16 4;
             compressed_size = field header 20 4;
             uncompressed_size = field header 24 4;
             filename_length = field header 28 2;
             extra_length = field header 30 2;
             comment_length = field header 32 2;
             offset = field header 42 4;
             offset1 = mmap_offset + 46;
             filename_bytes = py_slice m offset1 (offset1 + filename_length);
             offset2 = offset1 + filename_length;
             extra = py_slice m offset2 (offset2 + extra_length);
             offset3 = offset2 + (extra_length + comment_length)
         in case decode_filename decode filename_bytes of
              Inl e \<Rightarrow> Inl e
            | Inr name \<Rightarrow>
                (case zip64_fields uncompressed_size compressed_size offset extra of
                   Inl e \<Rightarrow> Inl e
                 | Inr (uncompressed_size', compressed_size', offset') \<Rightarrow>
                     Inr (\<lparr>filename = name, header_offset = offset', CRC = crc32,
                           compress_size = compressed_size', file_size = uncompressed_size'\<rparr>,
                          offset3))))"

text \<open>
  \<open>for _ in range(num_files)\<close>: each round reads one header and stores its \<open>ZipInfo\<close>
  under its file name (\<open>files[filename] = info\<close>).
\<close>

fun read_headers :: "codec \<Rightarrow> bytes \<Rightarrow> nat \<Rightarrow> nat \<Rightarrow> ZipInfo dict \<Rightarrow> error + ZipInfo dict" where
  "read_headers decode m mmap_offset 0 files = Inr files"
| "read_headers decode m mmap_offset (Suc n) files =
     (case read_header decode m mmap_offset of
        Inl e \<Rightarrow> Inl e
      | Inr (info, mmap_offset') \<Rightarrow>
          read_headers decode m mmap_offset' n (setitem files (filename info) info))"

definition read_eocd_mmap :: "codec \<Rightarrow> bytes \<Rightarrow> error + ZipInfo dict" where
  "read_eocd_mmap decode m =
     (case read_eocd m of
        Inl e \<Rightarrow> Inl e
      | Inr (num_files, directory_offset) \<Rightarrow>
          read_headers decode m directory_offset num_files [])"

text \<open>
  The file system is a map from paths to contents. Opening a path it has not raises
  \<open>FileNotFoundError\<close>, and \<open>mmap.mmap(f.fileno(), length=0)\<close> raises \<open>ValueError\<close> for an
  empty file.
\<close>

type_synonym filesystem = "string \<rightharpoonup> bytes"

definition open_mmap :: "filesystem \<Rightarrow> string \<Rightarrow> error + bytes" where
  "open_mmap fs file =
     (case fs file of
        None \<Rightarrow> Inl FileNotFoundError
      | Some content \<Rightarrow>
          if content = [] then Inl (ValueError CannotMmapEmptyFile) else Inr content)"

definition read_files :: "codec \<Rightarrow> filesystem \<Rightarrow> string \<Rightarrow> error + ZipInfo dict" where
  "read_files decode fs file =
     (case open_mmap fs file of
        Inl e \<Rightarrow> Inl e
      | Inr m \<Rightarrow> read_eocd_mmap decode m)"

subsection \<open>ParallelZipFile\<close>

text \<open>
  The object's attributes: the path \<open>self.filename\<close>, the dictionary \<open>self.files\<close> and
  the mapping \<open>self.m\<close>, which is \<open>None\<close> once \<open>close\<close> has closed it. A subscript
  of a closed mapping raises \<open>ValueError\<close>. Every method returns the object as it leaves it.
\<close>

record ParallelZipFile =
  pz_filename :: string
  pz_files :: "ZipInfo dict"
  pz_m :: "bytes option"

text \<open>
  \<open>__init__(self, file, mode="r", files=None)\<close>: the directory is parsed only when the
  caller gives no \<open>files\<close>.
\<close>

definition init :: "codec \<Rightarrow> filesystem \<Rightarrow> string \<Rightarrow> string \<Rightarrow> ZipInfo dict option
    \<Rightarrow> error + ParallelZipFile" where
  "init decode fs file mode files =
     (if mode \<noteq> ''r'' then Inl AssertionError
      else case open_mmap fs file of
        Inl e \<Rightarrow> Inl e
      | Inr m \<Rightarrow>
          (case files of
             Some files' \<Rightarrow> Inr \<lparr>pz_filename = file, pz_files = files', pz_m = Some m\<rparr>
           | None \<Rightarrow>
               (case read_eocd_mmap decode m of
                  Inl e \<Rightarrow> Inl e
                | Inr files' \<Rightarrow> Inr \<lparr>pz_filename = file, pz_files = files', pz_m = Some m\<rparr>)))"

definition contains_file :: "ParallelZipFile \<Rightarrow> str \<Rightarrow> bool" where
  "contains_file self name = (name \<in> set (dict_keys (pz_files self)))"

definition close :: "ParallelZipFile \<Rightarrow> ParallelZipFile" where
  "close self = self\<lparr>pz_m := None\<rparr>"



text \<open>
  The decompressors of the standard library: \<open>zlib.decompressobj(-zlib.MAX_WBITS).decompress\<close>
  on the compressed bytes, and for LZMA the filter properties and the bytes after them
  (\<open>lzma._decode_filter_properties\<close>, then a raw \<open>LZMADecompressor\<close>).
\<close>

type_synonym inflate = "bytes \<Rightarrow> error + bytes"
type_synonym unlzma = "bytes \<Rightarrow> bytes \<Rightarrow> error + bytes"

text \<open>
  Lines 272 to 288 of \<open>read\<close>: the branch on the compression method. For LZMA,
  \<open>struct.unpack("<HH", compressed[:4])\<close> raises unless \<open>compressed\<close> has four bytes.
\<close>

definition decompress :: "inflate \<Rightarrow> unlzma \<Rightarrow> nat \<Rightarrow> bytes \<Rightarrow> error + bytes" where
  "decompress zlib_decompress lzma_decompress compression compressed =
     (if compression = 0 then Inr compressed
      else if compression = 8 then zlib_decompress compressed
      else if compression = 14 then
        (if length (take 4 compressed) \<noteq> 4 then Inl StructError
         else
           (let size = field compressed 2 2 in
            if length compressed < 4 + size then Inl AssertionError
            else lzma_decompress (py_slice compressed 4 (4 + size))
                   (drop (4 + size) compressed)))
      else Inl (NotImplementedError compression))"

text \<open>
  Lines 239 to 270 of \<open>read\<close>, on the open mapping \<open>m\<close>, and then the branch above.
  The format \<open><IHHHHHIIIHH\<close> puts \<open>signature\<close> at byte 0, \<open>compression\<close> at 8,
  \<open>compressed_size\<close> at 18, \<open>filename_length\<close> at 26 and \<open>extra_length\<close> at 28 of the
  30 bytes. The header has 30 bytes when \<open>struct.unpack\<close> is reached, so it never raises
  there.
\<close>

definition extract_entry :: "inflate \<Rightarrow> unlzma \<Rightarrow> bytes \<Rightarrow> str \<Rightarrow> ZipInfo \<Rightarrow> error + bytes" where
  "extract_entry zlib_decompress lzma_decompress m name fileinfo =
     (let offset = header_offset fileinfo;
          header = py_slice m offset (offset + 30)
      in if length header < 30 then Inl (ValueError (HeaderTooSmall name (length header)))
         else
           (let signature = field header 0 4;
                compression = field header 8 2;
                compressed_size = field header 18 4;
                filename_length = field header 26 2;
                extra_length = field header 28 2;
                compressed_size' =
                  (if compressed_size \<noteq> compress_size fileinfo then compress_size fileinfo
                   else compressed_size);
                offset' = offset + (30 + filename_length + extra_length);
                compressed = py_slice m offset' (offset' + compressed_size')
            in if signature \<noteq> 0x4034B50 then Inl AssertionError
               else decompress zlib_decompress lzma_decompress compression compressed))"

text \<open>
  \<open>read(self, filename)\<close>: the name is looked up first; the mapping is touched only
  after that. The method assigns no attribute.
\<close>

definition read :: "inflate \<Rightarrow> unlzma \<Rightarrow> ParallelZipFile \<Rightarrow> str
    \<Rightarrow> (error + bytes) \<times> ParallelZipFile" where
  "read zlib_decompress lzma_decompress self name =
     (case map_of (pz_files self) name of
        None \<Rightarrow> (Inl (ValueError (DoesNotExist name)), self)
      | Some fileinfo \<Rightarrow>
          (case pz_m self of
             None \<Rightarrow> (Inl (ValueError MmapClosed), self)
           | Some m \<Rightarrow> (extract_entry zlib_decompress lzma_decompress m name fileinfo, self)))"

subsection \<open>The directory scan, as the specification sees it\<close>

text \<open>
  The loop of \<open>read_headers\<close> without its dictionary: the \<open>ZipInfo\<close>s of the central
  directory in the order the loop meets them, duplicates included. These functions are
  not the module's; the claims about the order of the index are stated against them.
\<close>

fun scan_headers :: "codec \<Rightarrow> bytes \<Rightarrow> nat \<Rightarrow> nat \<Rightarrow> error + ZipInfo list" where
  "scan_headers decode m mmap_offset 0 = Inr []"
| "scan_headers decode m mmap_offset (Suc n) =
     (case read_header decode m mmap_offset of
        Inl e \<Rightarrow> Inl e
      | Inr (info, mmap_offset') \<Rightarrow>
          (case scan_headers decode m mmap_offset' n of
             Inl e \<Rightarrow> Inl e
           | Inr infos \<Rightarrow> Inr (info # infos)))"

definition scan_directory :: "codec \<Rightarrow> bytes \<Rightarrow> error + ZipInfo list" where
  "scan_directory decode m =
     (case read_eocd m of
        Inl e \<Rightarrow> Inl e
      | Inr (num_files, directory_offset) \<Rightarrow> scan_headers decode m directory_offset num_files)"

text \<open>The elements of a list in the order of their first occurrence.\<close>

fun first_occurrences :: "'a list \<Rightarrow> 'a list" where
  "first_occurrences [] = []"
| "first_occurrences (x # xs) = x # filter (\<lambda>y. y \<noteq> x) (first_occurrences xs)"

text \<open>The last entry of a scan that has a given name.\<close>

definition last_entry :: "str \<Rightarrow> ZipInfo list \<Rightarrow> ZipInfo option" where
  "last_entry name infos =
     (case filter (\<lambda>info. filename info = name) infos of
        [] \<Rightarrow> None
      | x # xs \<Rightarrow> Some (last (x # xs)))"

text \<open>\<open>files[filename] = info\<close>, for the \<open>info\<close> of that name.\<close>

definition store :: "ZipInfo dict \<Rightarrow> ZipInfo \<Rightarrow> ZipInfo dict" where
  "store files info = setitem files (filename info) info"

text \<open>
  \<open>filename_bytes\<close> of the header at \<open>mmap_offset\<close> (line 128), and the stored names of
  the headers the loop meets, in its order.
\<close>

definition stored_name :: "bytes \<Rightarrow> nat \<Rightarrow> bytes" where
  "stored_name m mmap_offset =
     py_slice m (mmap_offset + 46)
       (mmap_offset + 46 + field (py_slice m mmap_offset (mmap_offset + 46)) 28 2)"

fun scan_stored_names :: "codec \<Rightarrow> bytes \<Rightarrow> nat \<Rightarrow> nat \<Rightarrow> error + bytes list" where
  "scan_stored_names decode m mmap_offset 0 = Inr []"
| "scan_stored_names decode m mmap_offset (Suc n) =
     (case read_header decode m mmap_offset of
        Inl e \<Rightarrow> Inl e
      | Inr (info, mmap_offset') \<Rightarrow>
          (case scan_stored_names decode m mmap_offset' n of
             Inl e \<Rightarrow> Inl e
           | Inr raws \<Rightarrow> Inr (stored_name m mmap_offset # raws)))"

definition stored_names :: "codec \<Rightarrow> bytes \<Rightarrow> error + bytes list" where
  "stored_names decode m =
     (case read_eocd m of
        Inl e \<Rightarrow> Inl e
      | Inr (num_files, directory_offset) \<Rightarrow>
          scan_stored_names decode m directory_offset num_files)"

subsection \<open>Example archives\<close>

definition ascii :: "string \<Rightarrow> str" where
  "ascii s = map of_char s"

text \<open>
  An archive of four members. Their local headers are at 0 (\<open>a.txt\<close>, stored, \<open>hi\<close>),
  37 (\<open>u.bin\<close>, compression method 99), 74 (\<open>a.txt\<close> again, stored, \<open>yo!\<close>, with
  the sizes of its local header left 0) and 112 (stored, empty; its name is stored as \<open>n\<close>
  and two NUL bytes). The central directory is at 145 and lists them in this order; the
  end-of-central-directory record is at 347.
\<close>

definition example_zip :: bytes where
  "example_zip = [
    0x50, 0x4B, 0x03, 0x04, 0x14, 0x00, 0x00, 0x00, 0x00, 0x00, 0x00, 0x00, 0x00, 0x00, 0xAC, 0x2A,
    0x93, 0xD8, 0x02, 0x00, 0x00, 0x00, 0x02, 0x00, 0x00, 0x00, 0x05, 0x00, 0x00, 0x00, 0x61, 0x2E,
    0x74, 0x78, 0x74, 0x68, 0x69, 0x50, 0x4B, 0x03, 0x04, 0x14, 0x00, 0x00, 0x00, 0x63, 0x00, 0x00,
    0x00, 0x00, 0x00, 0xA1, 0x1B, 0xD9, 0x24, 0x02, 0x00, 0x00, 0x00, 0x02, 0x00, 0x00, 0x00, 0x05,
    0x00, 0x00, 0x00, 0x75, 0x2E, 0x62, 0x69, 0x6E, 0x7A, 0x7A, 0x50, 0x4B, 0x03, 0x04, 0x14, 0x00,
    0x00, 0x00, 0x00, 0x00, 0x00, 0x00, 0x00, 0x00, 0x00, 0x00, 0x00, 0x00, 0x00, 0x00, 0x00, 0x00,
    0x00, 0x00, 0x00, 0x00, 0x05, 0x00, 0x00, 0x00, 0x61, 0x2E, 0x74, 0x78, 0x74, 0x79, 0x6F, 0x21,
    0x50, 0x4B, 0x03, 0x04, 0x14, 0x00, 0x00, 0x00, 0x00, 0x00, 0x00, 0x00, 0x00, 0x00, 0x00, 0x00,
    0x00, 0x00, 0x00, 0x00, 0x00, 0x00, 0x00, 0x00, 0x00, 0x00, 0x03, 0x00, 0x00, 0x00, 0x6E, 0x00,
    0x00, 0x50, 0x4B, 0x01, 0x02, 0x14, 0x00, 0x14, 0x00, 0x00, 0x00, 0x00, 0x00, 0x00, 0x00, 0x00,
    0x00, 0xAC, 0x2A, 0x93, 0xD8, 0x02, 0x00, 0x00, 0x00, 0x02, 0x00, 0x00, 0x00, 0x05, 0x00, 0x00,
    0x00, 0x00, 0x00, 0x00, 0x00, 0x00, 0x00, 0x00, 0x00, 0x00, 0x00, 0x00, 0x00, 0x00, 0x00, 0x61,
    0x2E, 0x74, 0x78, 0x74, 0x50, 0x4B, 0x01, 0x02, 0x14, 0x00, 0x14, 0x00, 0x00, 0x00, 0x63, 0x00,
    0x00, 0x00, 0x00, 0x00, 0xA1, 0x1B, 0xD9, 0x24, 0x02, 0x00, 0x00, 0x00, 0x02, 0x00, 0x00, 0x00,
    0x05, 0x00, 0x00, 0x00, 0x00, 0x00, 0x00, 0x00, 0x00, 0x00, 0x00, 0x00, 0x00, 0x00, 0x25, 0x00,
    0x00, 0x00, 0x75, 0x2E, 0x62, 0x69, 0x6E, 0x50, 0x4B, 0x01, 0x02, 0x14, 0x00, 0x14, 0x00, 0x00,
    0x00, 0x00, 0x00, 0x00, 0x00, 0x00, 0x00, 0xFB, 0xED, 0x6D, 0x0A, 0x03, 0x00, 0x00, 0x00, 0x03,
    0x00, 0x00, 0x00, 0x05, 0x00, 0x00, 0x00, 0x00, 0x00, 0x00, 0x00, 0x00, 0x00, 0x00, 0x00, 0x00,
    0x00, 0x4A, 0x00, 0x00, 0x00, 0x61, 0x2E, 0x74, 0x78, 0x74, 0x50, 0x4B, 0x01, 0x02, 0x14, 0x00,
    0x14, 0x00, 0x00, 0x00, 0x00, 0x00, 0x00, 0x00, 0x00, 0x00, 0x00, 0x00, 0x00, 0x00, 0x00, 0x00,
    0x00, 0x00, 0x00, 0x00, 0x00, 0x00, 0x03, 0x00, 0x00, 0x00, 0x00, 0x00, 0x00, 0x00, 0x00, 0x00,
    0x00, 0x00, 0x00, 0x00, 0x70, 0x00, 0x00, 0x00, 0x6E, 0x00, 0x00, 0x50, 0x4B, 0x05, 0x06, 0x00,
    0x00, 0x00, 0x00, 0x04, 0x00, 0x04, 0x00, 0xCA, 0x00, 0x00, 0x00, 0x91, 0x00, 0x00, 0x00, 0x00,
    0x00]"

definition example_files :: "ZipInfo dict" where
  "example_files =
     [(ascii ''a.txt'', \<lparr>filename = ascii ''a.txt'', header_offset = 74, CRC = 174976507,
         compress_size = 3, file_size = 3\<rparr>),
      (ascii ''u.bin'', \<lparr>filename = ascii ''u.bin'', header_offset = 37, CRC = 618208161,
         compress_size = 2, file_size = 2\<rparr>),
      (ascii ''n'', \<lparr>filename = ascii ''n'', header_offset = 112, CRC = 0,
         compress_size = 0, file_size = 0\<rparr>)]"


definition example_fs :: filesystem where
  "example_fs = [''example.zip'' \<mapsto> example_zip]"

definition example_reader :: ParallelZipFile where
  "example_reader =
     \<lparr>pz_filename = ''example.zip'', pz_files = example_files, pz_m = Some example_zip\<rparr>"

text \<open>
  The same index over a copy of the archive cut after 111 bytes, as
  \<open>ParallelZipFile(file, files=files)\<close> builds it from an index read earlier: the data of
  the second \<open>a.txt\<close> are the bytes 109 to 111, and the last of them is missing.
\<close>

definition cut_reader :: ParallelZipFile where
  "cut_reader =
     \<lparr>pz_filename = ''cut.zip'', pz_files = example_files, pz_m = Some (take 111 example_zip)\<rparr>"

text \<open>
  An archive of one stored member \<open>big\<close> whose writer uses zip64 for the header offset:
  the 32-bit field of the central directory is \<open>0xFFFFFFFF\<close>, and the extra field of the
  entry (the bytes 86 to 106) is the zip64 record with the offset 0 in its 8 bytes,
  followed by a time stamp record (\<open>UT\<close>) of 9 bytes.
\<close>

definition forced_zip64_zip :: bytes where
  "forced_zip64_zip = [
    0x50, 0x4B, 0x03, 0x04, 0x14, 0x00, 0x00, 0x00, 0x00, 0x00, 0x00, 0x00, 0x00, 0x00, 0x63, 0xF3,
    0xF3, 0xAD, 0x04, 0x00, 0x00, 0x00, 0x04, 0x00, 0x00, 0x00, 0x03, 0x00, 0x00, 0x00, 0x62, 0x69,
    0x67, 0x64, 0x61, 0x74, 0x61, 0x50, 0x4B, 0x01, 0x02, 0x14, 0x00, 0x14, 0x00, 0x00, 0x00, 0x00,
    0x00, 0x00, 0x00, 0x00, 0x00, 0x63, 0xF3, 0xF3, 0xAD, 0x04, 0x00, 0x00, 0x00, 0x04, 0x00, 0x00,
    0x00, 0x03, 0x00, 0x15, 0x00, 0x00, 0x00, 0x00, 0x00, 0x00, 0x00, 0x00, 0x00, 0x00, 0x00, 0xFF,
    0xFF, 0xFF, 0xFF, 0x62, 0x69, 0x67, 0x01, 0x00, 0x08, 0x00, 0x00, 0x00, 0x00, 0x00, 0x00, 0x00,
    0x00, 0x00, 0x55, 0x54, 0x05, 0x00, 0x01, 0x00, 0x00, 0x00, 0x65, 0x50, 0x4B, 0x05, 0x06, 0x00,
    0x00, 0x00, 0x00, 0x01, 0x00, 0x01, 0x00, 0x46, 0x00, 0x00, 0x00, 0x25, 0x00, 0x00, 0x00, 0x00,
    0x00]"

text \<open>
  An archive of one member \<open>l\<close> compressed with LZMA, as Python's \<open>zipfile\<close> writes it:
  the local header at 0, the name at 30, 24 bytes of data from 31 on (4 bytes of header,
  5 bytes of properties, the stream), the central directory at 55.
\<close>

definition lzma_zip :: bytes where
  "lzma_zip = [
    0x50, 0x4B, 0x03, 0x04, 0x3F, 0x00, 0x02, 0x00, 0x0E, 0x00, 0x00, 0x00, 0x21, 0x00, 0x86, 0xA6,
    0x10, 0x36, 0x18, 0x00, 0x00, 0x00, 0x05, 0x00, 0x00, 0x00, 0x01, 0x00, 0x00, 0x00, 0x6C, 0x09,
    0x04, 0x05, 0x00, 0x5D, 0x00, 0x00, 0x80, 0x00, 0x00, 0x34, 0x19, 0x49, 0xEE, 0x8E, 0x68, 0x21,
    0xFF, 0xFF, 0xFF, 0xB9, 0xE0, 0x00, 0x00, 0x50, 0x4B, 0x01, 0x02, 0x3F, 0x00, 0x3F, 0x00, 0x02,
    0x00, 0x0E, 0x00, 0x00, 0x00, 0x21, 0x00, 0x86, 0xA6, 0x10, 0x36, 0x18, 0x00, 0x00, 0x00, 0x05,
    0x00, 0x00, 0x00, 0x01, 0x00, 0x00, 0x00, 0x00, 0x00, 0x00, 0x00, 0x00, 0x00, 0x00, 0x00, 0x80,
    0x01, 0x00, 0x00, 0x00, 0x00, 0x6C, 0x50, 0x4B, 0x05, 0x06, 0x00, 0x00, 0x00, 0x00, 0x01, 0x00,
    0x01, 0x00, 0x2F, 0x00, 0x00, 0x00, 0x37, 0x00, 0x00, 0x00, 0x00, 0x00]"

definition lzma_files :: "ZipInfo dict" where
  "lzma_files =
     [(ascii ''l'', \<lparr>filename = ascii ''l'', header_offset = 0, CRC = 907060870,
         compress_size = 24, file_size = 5\<rparr>)]"

text \<open>A reader with this index over a copy of the archive cut after 33 bytes.\<close>

definition lzma_cut_reader :: ParallelZipFile where
  "lzma_cut_reader =
     \<lparr>pz_filename = ''l.zip'', pz_files = lzma_files, pz_m = Some (take 33 lzma_zip)\<rparr>"

text \<open>
  An archive of one member \<open>d\<close> compressed with DEFLATE, as Python's \<open>zipfile\<close> writes
  it: the local header at 0, the name at 30, 10 bytes of data from 31 on, the central
  directory at 41. The reader has its index over a copy of the archive cut after 35
  bytes.
\<close>

definition deflate_zip :: bytes where
  "deflate_zip = [
    0x50, 0x4B, 0x03, 0x04, 0x14, 0x00, 0x00, 0x00, 0x08, 0x00, 0x00, 0x00, 0x21, 0x00, 0xE3, 0x51,
    0x3D, 0x8D, 0x0A, 0x00, 0x00, 0x00, 0x17, 0x00, 0x00, 0x00, 0x01, 0x00, 0x00, 0x00, 0x64, 0xCB,
    0x48, 0xCD, 0xC9, 0xC9, 0x57, 0xC8, 0x40, 0x27, 0x01, 0x50, 0x4B, 0x01, 0x02, 0x14, 0x00, 0x14,
    0x00, 0x00, 0x00, 0x08, 0x00, 0x00, 0x00, 0x21, 0x00, 0xE3, 0x51, 0x3D, 0x8D, 0x0A, 0x00, 0x00,
    0x00, 0x17, 0x00, 0x00, 0x00, 0x01, 0x00, 0x00, 0x00, 0x00, 0x00, 0x00, 0x00, 0x00, 0x00, 0x00,
    0x00, 0x80, 0x01, 0x00, 0x00, 0x00, 0x00, 0x64, 0x50, 0x4B, 0x05, 0x06, 0x00, 0x00, 0x00, 0x00,
    0x01, 0x00, 0x01, 0x00, 0x2F, 0x00, 0x00, 0x00, 0x29, 0x00, 0x00, 0x00, 0x00, 0x00]"

definition deflate_files :: "ZipInfo dict" where
  "deflate_files =
     [(ascii ''d'', \<lparr>filename = ascii ''d'', header_offset = 0, CRC = 2369606115,
         compress_size = 10, file_size = 23\<rparr>)]"

definition deflate_cut_reader :: ParallelZipFile where
  "deflate_cut_reader =
     \<lparr>pz_filename = ''d.zip'', pz_files = deflate_files, pz_m = Some (take 35 deflate_zip)\<rparr>"

text \<open>
  Stand-ins for the standard library in the examples: decompressors that return their
  input and never raise, so that an error in an example is the module's own, and a codec
  that rejects every input. Python's \<open>CP437\<close> decodes every byte; only a codec like this
  one reaches the \<open>ValueError\<close> of the file name loop.
\<close>

definition echo_inflate :: inflate where
  "echo_inflate compressed = Inr compressed"

definition echo_unlzma :: unlzma where
  "echo_unlzma properties compressed = Inr compressed"


section \<open>Properties\<close>

subsection \<open>Evaluating the examples\<close>

lemmas parse_defs =
  last_n_def max_eocd_size_def rfind_def py_slice_def PK56_def PK67_def PK66_def PK12_def
  field_def read_eocd_def read_header_def decode_filename_def rstrip_nul_def
  zip64_fields_def zip64_first_def zip64_last_def Let_def

lemma example_eocd: "read_eocd example_zip = Inr (4, 145)"
  by (simp add: example_zip_def parse_defs)

lemma example_header_1:
  "read_header python_codec example_zip 145 =
     Inr (\<lparr>filename = ascii ''a.txt'', header_offset = 0, CRC = 3633523372,
            compress_size = 2, file_size = 2\<rparr>, 196)"
  by (simp add: example_zip_def ascii_def parse_defs)

lemma example_header_2:
  "read_header python_codec example_zip 196 =
     Inr (\<lparr>filename = ascii ''u.bin'', header_offset = 37, CRC = 618208161,
            compress_size = 2, file_size = 2\<rparr>, 247)"
  by (simp add: example_zip_def ascii_def parse_defs)

lemma example_header_3:
  "read_header python_codec example_zip 247 =
     Inr (\<lparr>filename = ascii ''a.txt'', header_offset = 74, CRC = 174976507,
            compress_size = 3, file_size = 3\<rparr>, 298)"
  by (simp add: example_zip_def ascii_def parse_defs)

lemma example_header_4:
  "read_header python_codec example_zip 298 =
     Inr (\<lparr>filename = ascii ''n'', header_offset = 112, CRC = 0,
            compress_size = 0, file_size = 0\<rparr>, 347)"
  by (simp add: example_zip_def ascii_def parse_defs)

lemmas example_headers = example_header_1 example_header_2 example_header_3 example_header_4

lemma four: "(4::nat) = Suc (Suc (Suc (Suc 0)))"
  by simp

lemma example_parse: "read_eocd_mmap python_codec example_zip = Inr example_files"
  by (simp add: read_eocd_mmap_def example_eocd four example_headers example_files_def ascii_def)


lemma example_init:
  "init python_codec example_fs ''example.zip'' ''r'' None = Inr example_reader"
  by (simp add: init_def open_mmap_def example_fs_def example_parse example_reader_def)
     (simp add: example_zip_def)


subsection \<open>The end-of-central-directory record\<close>

lemma rfind_at_None:
  "rfind_at s sub i = None \<longleftrightarrow> (\<forall>k\<le>length s. take (length sub) (drop k s) \<noteq> sub)"
proof (induction s arbitrary: i)
  case Nil
  show ?case by auto
next
  case (Cons x xs)
  have "(\<forall>k\<le>length (x # xs). take (length sub) (drop k (x # xs)) \<noteq> sub) \<longleftrightarrow>
        take (length sub) (x # xs) \<noteq> sub \<and> (\<forall>k\<le>length xs. take (length sub) (drop k xs) \<noteq> sub)"
    (is "?L \<longleftrightarrow> ?R")
  proof
    assume l: ?L
    have "take (length sub) (drop 0 (x # xs)) \<noteq> sub" using l by blast
    moreover have "take (length sub) (drop k xs) \<noteq> sub" if "k \<le> length xs" for k
      using l [rule_format, of "Suc k"] that by simp
    ultimately show ?R by simp
  next
    assume r: ?R
    show ?L
    proof (intro allI impI)
      fix k assume "k \<le> length (x # xs)"
      then show "take (length sub) (drop k (x # xs)) \<noteq> sub"
        using r by (cases k) auto
    qed
  qed
  then show ?case using Cons.IH [of "Suc i"] by (auto split: option.splits)
qed

lemma rfind_None_iff:
  "rfind s sub = None \<longleftrightarrow> (\<forall>k\<le>length s. take (length sub) (drop k s) \<noteq> sub)"
  by (simp add: rfind_def rfind_at_None)

lemma rfind_None_nowhere:
  assumes "rfind s sub = None" and "sub \<noteq> []"
  shows "take (length sub) (drop k s) \<noteq> sub"
proof (cases "k \<le> length s")
  case True
  then show ?thesis using assms(1) by (simp add: rfind_None_iff)
next
  case False
  then show ?thesis using assms(2) by auto
qed

lemma rfind_None_PK56:
  assumes "rfind s PK56 = None"
  shows "take 4 (drop k s) \<noteq> PK56"
proof -
  have "length PK56 = 4" and "PK56 \<noteq> []" by (simp_all add: PK56_def)
  then show ?thesis using rfind_None_nowhere [OF assms, of k] by simp
qed

text \<open>
  C5. When the last \<open>max_eocd_size\<close> bytes of the mapping hold the signature \<open>PK\5\6\<close>
  at no index, the parser raises (the \<open>assert offset32 >= 0\<close> of line 58 fails) and
  returns no dictionary.
\<close>

theorem no_eocd_signature:
  assumes "\<forall>k. take 4 (drop k (last_n max_eocd_size m)) \<noteq> PK56"
  shows "read_eocd_mmap decode m = Inl AssertionError"
proof -
  have "length PK56 = 4" by (simp add: PK56_def)
  then have "rfind (last_n max_eocd_size m) PK56 = None"
    using assms by (simp add: rfind_None_iff)
  then show ?thesis by (simp add: read_eocd_mmap_def read_eocd_def)
qed

theorem no_eocd_signature_witness:
  "(\<forall>k. take 4 (drop k (last_n max_eocd_size (take 347 example_zip))) \<noteq> PK56)
   \<and> read_eocd_mmap python_codec (take 347 example_zip) = Inl AssertionError"
proof -
  have "rfind (last_n max_eocd_size (take 347 example_zip)) PK56 = None"
    by (simp add: example_zip_def last_n_def max_eocd_size_def rfind_def PK56_def)
  then have h: "\<forall>k. take 4 (drop k (last_n max_eocd_size (take 347 example_zip))) \<noteq> PK56"
    by (blast dest: rfind_None_PK56)
  show ?thesis using h no_eocd_signature [OF h] by simp
qed

subsection \<open>Names that the index has not\<close>

text \<open>
  C6. For a name that is not a key of \<open>files\<close>, \<open>read\<close> raises the \<open>ValueError\<close>
  "does not exist" and leaves the object as it is. It does so whatever the mapping is,
  also when it is closed (where any subscript of it would raise): the mapping is not
  touched before the lookup.
\<close>

theorem read_missing_name:
  assumes "\<not> contains_file self name"
  shows "read zd ld (self\<lparr>pz_m := mm\<rparr>) name =
           (Inl (ValueError (DoesNotExist name)), self\<lparr>pz_m := mm\<rparr>)"
proof -
  have "map_of (pz_files self) name = None"
    using assms by (simp add: contains_file_def dict_keys_def map_of_eq_None_iff)
  then show ?thesis by (simp add: read_def)
qed

theorem read_missing_name_witness:
  "\<not> contains_file example_reader (ascii ''x'')
   \<and> read echo_inflate echo_unlzma (close example_reader) (ascii ''x'') =
       (Inl (ValueError (DoesNotExist (ascii ''x''))), close example_reader)
   \<and> read echo_inflate echo_unlzma example_reader (ascii ''x'') =
       (Inl (ValueError (DoesNotExist (ascii ''x''))), example_reader)"
proof -
  have h: "\<not> contains_file example_reader (ascii ''x'')"
    by (simp add: contains_file_def dict_keys_def example_reader_def example_files_def ascii_def)
  have c: "close example_reader = example_reader\<lparr>pz_m := None\<rparr>"
    by (simp add: close_def)
  have o: "example_reader = example_reader\<lparr>pz_m := Some example_zip\<rparr>"
    by (simp add: example_reader_def)
  show ?thesis
    using h read_missing_name [OF h, of echo_inflate echo_unlzma None]
      read_missing_name [OF h, of echo_inflate echo_unlzma "Some example_zip"] c o
    by simp
qed

subsection \<open>File names\<close>



text \<open>With Python's codecs the last case never arises: CP437 decodes every byte.\<close>

lemma cp437_total: "python_codec CP437 b \<noteq> None"
  by (induction b) (auto simp: cp437_char_def Let_def)

lemma python_filename_decodes: "\<exists>name. decode_filename python_codec raw = Inr name"
  using cp437_total [of "rstrip_nul raw"]
  by (auto simp: decode_filename_def split: option.splits)

subsection \<open>Trailing NUL bytes\<close>

lemma rstrip_nul_replicate:
  "\<exists>k. raw = rstrip_nul raw @ replicate k 0"
proof -
  let ?t = "takeWhile (\<lambda>x. x = 0) (rev raw)"
  have "set ?t \<subseteq> {0}" by (auto dest: set_takeWhileD)
  then have t: "?t = replicate (length ?t) 0"
    by (metis (no_types, lifting) replicate_eqI singletonD subsetD)
  have "rev raw = ?t @ dropWhile (\<lambda>x. x = 0) (rev raw)" by simp
  then have "raw = rev (dropWhile (\<lambda>x. x = 0) (rev raw)) @ rev ?t"
    by (metis rev_append rev_rev_ident)
  then have "raw = rstrip_nul raw @ replicate (length ?t) 0"
    using t by (metis rev_replicate rstrip_nul_def)
  then show ?thesis ..
qed

lemma rstrip_nul_last: "rstrip_nul raw = [] \<or> last (rstrip_nul raw) \<noteq> 0"
proof (cases "dropWhile (\<lambda>x. x = 0) (rev raw)")
  case Nil
  then show ?thesis by (simp add: rstrip_nul_def)
next
  case (Cons y ys)
  then have "y \<noteq> 0" using hd_dropWhile [of "\<lambda>x. x = 0" "rev raw"] by auto
  then show ?thesis using Cons by (simp add: rstrip_nul_def)
qed

lemma rstrip_nul_stem:
  assumes "stem = [] \<or> last stem \<noteq> 0"
  shows "rstrip_nul (stem @ replicate k 0) = stem"
proof -
  have "dropWhile (\<lambda>x. x = 0) (replicate k (0::byte) @ rev stem) = dropWhile (\<lambda>x. x = 0) (rev stem)"
    by (simp add: dropWhile_append)
  moreover have "dropWhile (\<lambda>x. x = 0) (rev stem) = rev stem"
    using assms by (cases "rev stem") (auto simp: last_rev)
  ultimately show ?thesis by (simp add: rstrip_nul_def)
qed

lemma try_encodings_cong:
  assumes "\<forall>encoding. decode' encoding (rstrip_nul raw) = decode encoding (rstrip_nul raw)"
  shows "try_encodings decode' encodings raw = try_encodings decode encodings raw"
  using assms by (induction encodings) (auto split: option.splits)

lemma try_encodings_Inr:
  "try_encodings decode encodings raw = Inr name \<Longrightarrow>
   \<exists>encoding. decode encoding (rstrip_nul raw) = Some name"
  by (induction encodings) (auto split: option.splits)


lemma read_header_name:
  assumes "read_header decode m mmap_offset = Inr (info, mmap_offset')"
  shows "decode_filename decode
           (py_slice m (mmap_offset + 46)
              (mmap_offset + 46 + field (py_slice m mmap_offset (mmap_offset + 46)) 28 2)) =
         Inr (filename info)"
  using assms
  by (auto simp: read_header_def Let_def split: if_splits sum.splits prod.splits)

lemma read_header_cong:
  assumes "decode_filename decode'
             (py_slice m (mmap_offset + 46)
                (mmap_offset + 46 + field (py_slice m mmap_offset (mmap_offset + 46)) 28 2)) =
           decode_filename decode
             (py_slice m (mmap_offset + 46)
                (mmap_offset + 46 + field (py_slice m mmap_offset (mmap_offset + 46)) 28 2))"
  shows "read_header decode' m mmap_offset = read_header decode m mmap_offset"
  using assms by (simp add: read_header_def Let_def)

text \<open>
  One header: the bytes the codecs see are the stored name without its trailing NUL
  bytes, the name of the entry is what one of the codecs makes of them, and a codec that
  agrees on them gives the same entry.
\<close>

lemma read_header_nul_stripped:
  assumes "read_header decode m mmap_offset = Inr (info, mmap_offset')"
  shows "let header = py_slice m mmap_offset (mmap_offset + 46);
             filename_bytes =
               py_slice m (mmap_offset + 46) (mmap_offset + 46 + field header 28 2);
             stripped = rstrip_nul filename_bytes
         in (\<exists>k. filename_bytes = stripped @ replicate k 0)
            \<and> (stripped = [] \<or> last stripped \<noteq> 0)
            \<and> (\<exists>encoding. decode encoding stripped = Some (filename info))
            \<and> (\<forall>decode'. (\<forall>encoding. decode' encoding stripped = decode encoding stripped)
                  \<longrightarrow> read_header decode' m mmap_offset = read_header decode m mmap_offset)"
proof -
  define raw where "raw =
    py_slice m (mmap_offset + 46)
      (mmap_offset + 46 + field (py_slice m mmap_offset (mmap_offset + 46)) 28 2)"
  have "decode_filename decode raw = Inr (filename info)"
    unfolding raw_def using assms by (rule read_header_name)
  then have enc: "\<exists>encoding. decode encoding (rstrip_nul raw) = Some (filename info)"
    unfolding decode_filename_def by (rule try_encodings_Inr)
  have cong: "read_header decode' m mmap_offset = read_header decode m mmap_offset"
    if "\<forall>encoding. decode' encoding (rstrip_nul raw) = decode encoding (rstrip_nul raw)"
    for decode'
  proof -
    have "decode_filename decode' raw = decode_filename decode raw"
      unfolding decode_filename_def using that by (rule try_encodings_cong)
    then show ?thesis unfolding raw_def by (rule read_header_cong)
  qed
  have 1: "\<exists>k. raw = rstrip_nul raw @ replicate k 0"
    by (rule rstrip_nul_replicate)
  have 2: "rstrip_nul raw = [] \<or> last (rstrip_nul raw) \<noteq> 0"
    by (rule rstrip_nul_last)
  have 4: "\<forall>decode'. (\<forall>encoding. decode' encoding (rstrip_nul raw) = decode encoding (rstrip_nul raw))
              \<longrightarrow> read_header decode' m mmap_offset = read_header decode m mmap_offset"
    using cong by (intro allI impI)
  from 1 2 enc 4 show ?thesis
    unfolding Let_def raw_def by (intro conjI)
qed

lemma example_header_nul_stripped:
  "read_header python_codec example_zip 298 =
     Inr (\<lparr>filename = ascii ''n'', header_offset = 112, CRC = 0,
            compress_size = 0, file_size = 0\<rparr>, 347)
   \<and> py_slice example_zip 344 347 = [0x6E, 0, 0]
   \<and> rstrip_nul (py_slice example_zip 344 347) = [0x6E]
   \<and> (\<exists>encoding. python_codec encoding [0x6E] = Some (ascii ''n''))"
proof -
  have f: "field (py_slice example_zip 298 (298 + 46)) 28 2 = 3"
    by (simp add: example_zip_def field_def py_slice_def)
  have s: "py_slice example_zip 344 347 = [0x6E, 0, 0]"
    by (simp add: example_zip_def py_slice_def)
  have r: "rstrip_nul [0x6E, 0, 0] = [0x6E]"
    by (simp add: rstrip_nul_def)
  show ?thesis
    using example_header_4 read_header_nul_stripped [OF example_header_4] f s r
    by (simp add: Let_def)
qed

subsection \<open>Reading an entry\<close>

lemma length_py_slice: "length (py_slice s a b) = min (b - a) (length s - a)"
  by (simp add: py_slice_def)

text \<open>
  What \<open>read\<close> does for a name of the index once the mapping is open, the 30 bytes of the
  local header are there and its signature is right.
\<close>

lemma read_entry:
  assumes "map_of (pz_files self) name = Some info"
    and "pz_m self = Some m"
    and "length (py_slice m (header_offset info) (header_offset info + 30)) = 30"
    and "field (py_slice m (header_offset info) (header_offset info + 30)) 0 4 = 0x4034B50"
  shows "read zd ld self name =
    (decompress zd ld (field (py_slice m (header_offset info) (header_offset info + 30)) 8 2)
       (py_slice m
          (header_offset info + 30
             + field (py_slice m (header_offset info) (header_offset info + 30)) 26 2
             + field (py_slice m (header_offset info) (header_offset info + 30)) 28 2)
          (header_offset info + 30
             + field (py_slice m (header_offset info) (header_offset info + 30)) 26 2
             + field (py_slice m (header_offset info) (header_offset info + 30)) 28 2
             + compress_size info)),
     self)"
  using assms by (simp add: read_def extract_entry_def Let_def add.assoc)

text \<open>
  The mapping with the four bytes of the local header's compressed size replaced: all the
  header but these bytes, and all that follows the header, are the same.
\<close>

lemma patched_length:
  assumes "off + 22 \<le> length m" and "length c = 4"
  shows "length (take (off + 18) m @ c @ drop (off + 22) m) = length m"
  using assms by simp

lemma patched_drop:
  assumes "off + 22 \<le> length m" and "length c = 4" and "off + 22 \<le> a"
  shows "drop a (take (off + 18) m @ c @ drop (off + 22) m) = drop a m"
proof -
  have "a - (off + 18) - 4 + (off + 22) = a" using assms(3) by simp
  then show ?thesis using assms by (simp add: min_absorb2)
qed

lemma patched_take:
  assumes "off + 22 \<le> length m" and "b \<le> off + 18"
  shows "take b (take (off + 18) m @ c @ drop (off + 22) m) = take b m"
  using assms by (simp add: min_absorb2 min_absorb1)

lemma py_slice_alt: "py_slice s a b = drop a (take b s)"
  by (simp add: py_slice_def drop_take)

lemma patched_slice_after:
  assumes "off + 22 \<le> length m" and "length c = 4" and "off + 22 \<le> a"
  shows "py_slice (take (off + 18) m @ c @ drop (off + 22) m) a b = py_slice m a b"
  unfolding py_slice_def using patched_drop [OF assms] by simp

lemma patched_slice_before:
  assumes "off + 22 \<le> length m" and "b \<le> off + 18"
  shows "py_slice (take (off + 18) m @ c @ drop (off + 22) m) a b = py_slice m a b"
  by (simp only: py_slice_alt patched_take [OF assms])

lemma field_of_slice:
  assumes "i + n \<le> k"
  shows "field (py_slice s off (off + k)) i n = field s (off + i) n"
proof -
  have "take n (drop i (take k (drop off s))) = take n (take (k - i) (drop i (drop off s)))"
    by (simp only: drop_take)
  also have "\<dots> = take n (drop (off + i) s)"
    using assms by (simp add: min_absorb1 add.commute)
  finally show ?thesis
    by (simp add: field_def py_slice_def)
qed

lemma patched_extract:
  assumes "length (py_slice m off (off + 30)) = 30" and "length c = 4"
    and "header_offset info = off"
  shows "extract_entry zd ld (take (off + 18) m @ c @ drop (off + 22) m) name info =
         extract_entry zd ld m name info"
proof -
  let ?m' = "take (off + 18) m @ c @ drop (off + 22) m"
  have len: "off + 30 \<le> length m"
    using assms(1) by (simp add: py_slice_def)
  then have l22: "off + 22 \<le> length m" by simp
  have hl: "length (py_slice ?m' off (off + 30)) = 30"
    using len assms(2) by (simp add: py_slice_def)
  have before: "field ?m' (off + i) n = field m (off + i) n" if "i + n \<le> 18" for i n
    unfolding field_def using that by (intro arg_cong [where f = le] patched_slice_before l22) simp
  have after: "field ?m' (off + i) n = field m (off + i) n" if "22 \<le> i" for i n
    unfolding field_def using that
    by (intro arg_cong [where f = le] patched_slice_after l22 assms(2)) simp
  have f: "field (py_slice ?m' off (off + 30)) 0 4 = field (py_slice m off (off + 30)) 0 4"
    "field (py_slice ?m' off (off + 30)) 8 2 = field (py_slice m off (off + 30)) 8 2"
    "field (py_slice ?m' off (off + 30)) 26 2 = field (py_slice m off (off + 30)) 26 2"
    "field (py_slice ?m' off (off + 30)) 28 2 = field (py_slice m off (off + 30)) 28 2"
    using before [of 0 4] before [of 8 2] after [of 26 2] after [of 28 2]
    by (simp_all add: field_of_slice)
  have w: "py_slice ?m' (off + a) b = py_slice m (off + a) b" if "30 \<le> a" for a b
    using that by (intro patched_slice_after l22 assms(2)) simp
  show ?thesis
    using assms(1) hl
    by (simp add: extract_entry_def Let_def assms(3) f w)
qed

text \<open>
  C2, amended. The compressed data are the bytes of the mapping from
  \<open>header_offset + 30 + filename_length + extra_length\<close> on, as many as the compressed
  size of the central directory says and the mapping has: as many as the central
  directory says when the mapping holds them all. The compressed size of the local
  header, the bytes 18 to 21 of \<open>header\<close>, has no part in the result: whatever four
  bytes stand there, \<open>read\<close> returns the same.
\<close>

theorem central_size_authoritative:
  assumes "map_of (pz_files self) name = Some info"
    and "pz_m self = Some m"
    and "length (py_slice m (header_offset info) (header_offset info + 30)) = 30"
    and "field (py_slice m (header_offset info) (header_offset info + 30)) 0 4 = 0x4034B50"
  shows "let header = py_slice m (header_offset info) (header_offset info + 30);
             start = header_offset info + 30 + field header 26 2 + field header 28 2;
             window = py_slice m start (start + compress_size info)
         in read zd ld self name = (decompress zd ld (field header 8 2) window, self)
            \<and> length window = min (compress_size info) (length m - start)
            \<and> (start + compress_size info \<le> length m \<longrightarrow>
                  length window = compress_size info)
            \<and> (\<forall>c. length c = 4 \<longrightarrow>
                  fst (read zd ld
                         (self\<lparr>pz_m := Some (take (header_offset info + 18) m @ c
                                                @ drop (header_offset info + 22) m)\<rparr>) name)
                  = fst (read zd ld self name))"
proof -
  have "fst (read zd ld
               (self\<lparr>pz_m := Some (take (header_offset info + 18) m @ c
                                      @ drop (header_offset info + 22) m)\<rparr>) name)
        = fst (read zd ld self name)" if "length c = 4" for c
    using assms(1,2) patched_extract [OF assms(3) that refl, of zd ld name]
    by (simp add: read_def)
  then show ?thesis
    using read_entry [OF assms, of zd ld] by (auto simp: Let_def length_py_slice)
qed

lemma example_lookup_a:
  "map_of (pz_files example_reader) (ascii ''a.txt'') =
     Some \<lparr>filename = ascii ''a.txt'', header_offset = 74, CRC = 174976507,
            compress_size = 3, file_size = 3\<rparr>"
  by (simp add: example_reader_def example_files_def ascii_def)

lemma example_lookup_u:
  "map_of (pz_files example_reader) (ascii ''u.bin'') =
     Some \<lparr>filename = ascii ''u.bin'', header_offset = 37, CRC = 618208161,
            compress_size = 2, file_size = 2\<rparr>"
  by (simp add: example_reader_def example_files_def ascii_def)

lemma example_local_a:
  "py_slice example_zip 74 104 =
     [0x50, 0x4B, 3, 4, 0x14, 0, 0, 0, 0, 0, 0, 0, 0, 0, 0, 0, 0, 0, 0, 0, 0, 0, 0, 0, 0, 0,
      5, 0, 0, 0]"
  by (simp add: example_zip_def py_slice_def)

lemma example_local_u:
  "py_slice example_zip 37 67 =
     [0x50, 0x4B, 3, 4, 0x14, 0, 0, 0, 0x63, 0, 0, 0, 0, 0, 0xA1, 0x1B, 0xD9, 0x24, 2, 0, 0, 0,
      2, 0, 0, 0, 5, 0, 0, 0]"
  by (simp add: example_zip_def py_slice_def)

theorem central_size_authoritative_witness:
  "map_of (pz_files example_reader) (ascii ''a.txt'') =
     Some \<lparr>filename = ascii ''a.txt'', header_offset = 74, CRC = 174976507,
            compress_size = 3, file_size = 3\<rparr>
   \<and> pz_m example_reader = Some example_zip
   \<and> length (py_slice example_zip 74 104) = 30
   \<and> field (py_slice example_zip 74 104) 0 4 = 0x4034B50
   \<and> field (py_slice example_zip 74 104) 18 4 = 0
   \<and> read echo_inflate echo_unlzma example_reader (ascii ''a.txt'') =
       (Inr [0x79, 0x6F, 0x21], example_reader)
   \<and> 109 + 3 \<le> length example_zip
   \<and> length (py_slice example_zip 109 112) = 3
   \<and> length [3, 0, 0, 0 :: byte] = 4
   \<and> fst (read echo_inflate echo_unlzma
         (example_reader\<lparr>pz_m := Some (take 92 example_zip @ [3, 0, 0, 0] @ drop 96 example_zip)\<rparr>)
         (ascii ''a.txt'')) = Inr [0x79, 0x6F, 0x21]"
proof -
  let ?info = "\<lparr>filename = ascii ''a.txt'', header_offset = 74, CRC = 174976507,
            compress_size = 3, file_size = 3\<rparr>"
  have m: "pz_m example_reader = Some example_zip"
    by (simp add: example_reader_def)
  have l: "length (py_slice example_zip (header_offset ?info) (header_offset ?info + 30)) = 30"
    by (simp add: example_local_a)
  have s: "field (py_slice example_zip (header_offset ?info) (header_offset ?info + 30)) 0 4
      = 0x4034B50"
    by (simp add: example_local_a) (simp add: field_def py_slice_def)
  have f: "field (py_slice example_zip 74 104) 8 2 = 0"
    "field (py_slice example_zip 74 104) 18 4 = 0"
    "field (py_slice example_zip 74 104) 26 2 = 5"
    "field (py_slice example_zip 74 104) 28 2 = 0"
    unfolding example_local_a by (simp_all add: field_def py_slice_def)
  have w: "py_slice example_zip 109 112 = [0x79, 0x6F, 0x21]"
    by (simp add: example_zip_def py_slice_def)
  have c: "length [3, 0, 0, 0 :: byte] = 4"
    by simp
  note claim = central_size_authoritative [OF example_lookup_a m l s, of echo_inflate echo_unlzma]
  have r: "read echo_inflate echo_unlzma example_reader (ascii ''a.txt'') =
       (Inr [0x79, 0x6F, 0x21], example_reader)"
    using claim f w by (simp add: Let_def decompress_def)
  have "\<forall>c. length c = 4 \<longrightarrow>
      fst (read echo_inflate echo_unlzma
         (example_reader\<lparr>pz_m := Some (take 92 example_zip @ c @ drop 96 example_zip)\<rparr>)
         (ascii ''a.txt'')) = fst (read echo_inflate echo_unlzma example_reader (ascii ''a.txt''))"
    using claim by (simp add: Let_def)
  then have p: "fst (read echo_inflate echo_unlzma
         (example_reader\<lparr>pz_m := Some (take 92 example_zip @ [3, 0, 0, 0] @ drop 96 example_zip)\<rparr>)
         (ascii ''a.txt'')) = fst (read echo_inflate echo_unlzma example_reader (ascii ''a.txt''))"
    using c by blast
  have 5: "field (py_slice example_zip 74 104) 18 4 = 0"
    by (rule f)
  have l': "length (py_slice example_zip 74 104) = 30"
    by (simp add: example_local_a)
  have s': "field (py_slice example_zip 74 104) 0 4 = 0x4034B50"
    unfolding example_local_a by (simp add: field_def py_slice_def)
  from p r have 8: "fst (read echo_inflate echo_unlzma
         (example_reader\<lparr>pz_m := Some (take 92 example_zip @ [3, 0, 0, 0] @ drop 96 example_zip)\<rparr>)
         (ascii ''a.txt'')) = Inr [0x79, 0x6F, 0x21]"
    by (simp only: fst_conv)
  have e: "109 + 3 \<le> length example_zip"
    by (simp add: example_zip_def)
  have wl: "length (py_slice example_zip 109 112) = 3"
    by (simp add: w)
  from example_lookup_a m l' s' 5 r e wl c 8 show ?thesis by (intro conjI)
qed

text \<open>
  C3. For an entry of the index whose local header is complete and has the right
  signature, a compression method other than 0, 8 and 14 makes \<open>read\<close> raise
  \<open>NotImplementedError\<close> with the method in its message. The object is left as it is,
  so every later \<open>read\<close> returns what it would have returned before.
\<close>

theorem unsupported_method:
  assumes "map_of (pz_files self) name = Some info"
    and "pz_m self = Some m"
    and "length (py_slice m (header_offset info) (header_offset info + 30)) = 30"
    and "field (py_slice m (header_offset info) (header_offset info + 30)) 0 4 = 0x4034B50"
    and "field (py_slice m (header_offset info) (header_offset info + 30)) 8 2 \<notin> {0, 8, 14}"
  shows "read zd ld self name =
           (Inl (NotImplementedError
              (field (py_slice m (header_offset info) (header_offset info + 30)) 8 2)), self)
         \<and> (\<forall>other. read zd ld (snd (read zd ld self name)) other = read zd ld self other)"
  using read_entry [OF assms(1-4), of zd ld] assms(5) by (simp add: decompress_def)

theorem unsupported_method_witness:
  "map_of (pz_files example_reader) (ascii ''u.bin'') =
     Some \<lparr>filename = ascii ''u.bin'', header_offset = 37, CRC = 618208161,
            compress_size = 2, file_size = 2\<rparr>
   \<and> pz_m example_reader = Some example_zip
   \<and> length (py_slice example_zip 37 67) = 30
   \<and> field (py_slice example_zip 37 67) 0 4 = 0x4034B50
   \<and> field (py_slice example_zip 37 67) 8 2 = 99
   \<and> read echo_inflate echo_unlzma example_reader (ascii ''u.bin'') =
       (Inl (NotImplementedError 99), example_reader)
   \<and> read echo_inflate echo_unlzma
         (snd (read echo_inflate echo_unlzma example_reader (ascii ''u.bin''))) (ascii ''a.txt'') =
       read echo_inflate echo_unlzma example_reader (ascii ''a.txt'')"
proof -
  let ?info = "\<lparr>filename = ascii ''u.bin'', header_offset = 37, CRC = 618208161,
            compress_size = 2, file_size = 2\<rparr>"
  have m: "pz_m example_reader = Some example_zip"
    by (simp add: example_reader_def)
  have l: "length (py_slice example_zip (header_offset ?info) (header_offset ?info + 30)) = 30"
    by (simp add: example_local_u)
  have s: "field (py_slice example_zip (header_offset ?info) (header_offset ?info + 30)) 0 4
      = 0x4034B50"
    by (simp add: example_local_u) (simp add: field_def py_slice_def)
  have c: "field (py_slice example_zip 37 67) 8 2 = 99"
    unfolding example_local_u by (simp add: field_def py_slice_def)
  have n: "field (py_slice example_zip (header_offset ?info) (header_offset ?info + 30)) 8 2
      \<notin> {0, 8, 14}"
    by (simp add: c)
  show ?thesis
    using unsupported_method [OF example_lookup_u m l s n, of echo_inflate echo_unlzma]
      example_lookup_u m l s c
    by simp
qed

subsection \<open>Data that reach past the end of the mapping\<close>

lemma lzma_lookup:
  "map_of (pz_files lzma_cut_reader) (ascii ''l'') =
     Some \<lparr>filename = ascii ''l'', header_offset = 0, CRC = 907060870,
            compress_size = 24, file_size = 5\<rparr>"
  by (simp add: lzma_cut_reader_def lzma_files_def ascii_def)

lemma lzma_cut: "take 33 lzma_zip =
  [0x50, 0x4B, 0x03, 0x04, 0x3F, 0x00, 0x02, 0x00, 0x0E, 0x00, 0x00, 0x00, 0x21, 0x00, 0x86, 0xA6,
   0x10, 0x36, 0x18, 0x00, 0x00, 0x00, 0x05, 0x00, 0x00, 0x00, 0x01, 0x00, 0x00, 0x00, 0x6C, 0x09,
   0x04]"
  by (simp add: lzma_zip_def)

text \<open>
  C10, as the claim states it, fails for a member compressed with LZMA. The index of
  \<open>lzma_zip\<close> gives it 24 bytes of data from byte 31 on. Over the archive cut after 33
  bytes the header check passes, two bytes of data are left, and \<open>read\<close> raises
  \<open>struct.error\<close> at line 281; over the whole archive it reaches the decompressor.
\<close>

theorem truncated_lzma_counterexample:
  "pz_m lzma_cut_reader = Some (take 33 lzma_zip)
   \<and> length (py_slice (take 33 lzma_zip) 0 30) = 30
   \<and> fst (read echo_inflate echo_unlzma lzma_cut_reader (ascii ''l'')) = Inl StructError
   \<and> fst (read echo_inflate echo_unlzma (lzma_cut_reader\<lparr>pz_m := Some lzma_zip\<rparr>) (ascii ''l''))
       = Inr [0x00, 0x34, 0x19, 0x49, 0xEE, 0x8E, 0x68, 0x21, 0xFF, 0xFF, 0xFF, 0xB9, 0xE0, 0x00, 0x00]"
proof -
  have 1: "pz_m lzma_cut_reader = Some (take 33 lzma_zip)"
    by (simp add: lzma_cut_reader_def)
  have 2: "length (py_slice (take 33 lzma_zip) 0 30) = 30"
    unfolding lzma_cut by (simp add: py_slice_def)
  have 3: "fst (read echo_inflate echo_unlzma lzma_cut_reader (ascii ''l'')) = Inl StructError"
    unfolding read_def lzma_lookup 1 lzma_cut
    by (simp add: extract_entry_def decompress_def field_def py_slice_def Let_def)
  have 4: "fst (read echo_inflate echo_unlzma (lzma_cut_reader\<lparr>pz_m := Some lzma_zip\<rparr>) (ascii ''l''))
       = Inr [0x00, 0x34, 0x19, 0x49, 0xEE, 0x8E, 0x68, 0x21, 0xFF, 0xFF, 0xFF, 0xB9, 0xE0, 0x00, 0x00]"
    by (simp add: read_def lzma_cut_reader_def lzma_files_def ascii_def lzma_zip_def
        extract_entry_def decompress_def field_def py_slice_def Let_def echo_unlzma_def)
  from 1 2 3 4 show ?thesis by (intro conjI)
qed

lemma cut_lookup_a:
  "map_of (pz_files cut_reader) (ascii ''a.txt'') =
     Some \<lparr>filename = ascii ''a.txt'', header_offset = 74, CRC = 174976507,
            compress_size = 3, file_size = 3\<rparr>"
  by (simp add: cut_reader_def example_files_def ascii_def)

lemma cut_local_a:
  "py_slice (take 111 example_zip) 74 104 =
     [0x50, 0x4B, 3, 4, 0x14, 0, 0, 0, 0, 0, 0, 0, 0, 0, 0, 0, 0, 0, 0, 0, 0, 0, 0, 0, 0, 0,
      5, 0, 0, 0]"
  by (simp add: example_zip_def py_slice_def)

lemma lzma_cut_37: "take 37 lzma_zip =
  [0x50, 0x4B, 0x03, 0x04, 0x3F, 0x00, 0x02, 0x00, 0x0E, 0x00, 0x00, 0x00, 0x21, 0x00, 0x86, 0xA6,
   0x10, 0x36, 0x18, 0x00, 0x00, 0x00, 0x05, 0x00, 0x00, 0x00, 0x01, 0x00, 0x00, 0x00, 0x6C, 0x09,
   0x04, 0x05, 0x00, 0x5D, 0x00]"
  by (simp add: lzma_zip_def)

text \<open>
  C2, as the claim states it, fails where the archive ends inside the window. Over the
  example archive cut after 111 bytes the local header of the second \<open>a.txt\<close> is
  complete and has the right signature, the compressed size of the central directory is
  3, and the window from 109 on has the two bytes that are left.
\<close>

theorem window_shorter_than_central_size_counterexample:
  "map_of (pz_files cut_reader) (ascii ''a.txt'') =
     Some \<lparr>filename = ascii ''a.txt'', header_offset = 74, CRC = 174976507,
            compress_size = 3, file_size = 3\<rparr>
   \<and> pz_m cut_reader = Some (take 111 example_zip)
   \<and> length (py_slice (take 111 example_zip) 74 104) = 30
   \<and> field (py_slice (take 111 example_zip) 74 104) 0 4 = 0x4034B50
   \<and> field (py_slice (take 111 example_zip) 74 104) 26 2 = 5
   \<and> field (py_slice (take 111 example_zip) 74 104) 28 2 = 0
   \<and> py_slice (take 111 example_zip) 109 112 = [0x79, 0x6F]
   \<and> read echo_inflate echo_unlzma cut_reader (ascii ''a.txt'') = (Inr [0x79, 0x6F], cut_reader)"
proof -
  have m: "pz_m cut_reader = Some (take 111 example_zip)"
    by (simp add: cut_reader_def)
  have h: "length (py_slice (take 111 example_zip) 74 104) = 30"
    "field (py_slice (take 111 example_zip) 74 104) 0 4 = 0x4034B50"
    "field (py_slice (take 111 example_zip) 74 104) 26 2 = 5"
    "field (py_slice (take 111 example_zip) 74 104) 28 2 = 0"
    unfolding cut_local_a by (simp_all add: field_def py_slice_def)
  have c: "field (py_slice (take 111 example_zip) 74 104) 8 2 = 0"
    unfolding cut_local_a by (simp add: field_def py_slice_def)
  have w: "py_slice (take 111 example_zip) 109 112 = [0x79, 0x6F]"
    by (simp add: example_zip_def py_slice_def)
  have r: "read echo_inflate echo_unlzma cut_reader (ascii ''a.txt'') =
      (Inr [0x79, 0x6F], cut_reader)"
    unfolding read_def cut_lookup_a m
    by (simp add: extract_entry_def Let_def h c w decompress_def)
  from cut_lookup_a m h w r show ?thesis by (intro conjI)
qed

text \<open>
  C10, amended. Under the two checks that precede it, the data window is the part of
  \<open>[start, start + compressed size)\<close> that the mapping has; taking it never raises.
  A stored member returns it. A member compressed with DEFLATE hands it to the
  decompressor and returns what that returns. A member compressed with LZMA whose
  window still holds the four bytes of the header and the properties they announce hands
  the properties and the rest to the decompressor; with fewer than four bytes \<open>read\<close>
  raises \<open>struct.error\<close>, and with fewer than the properties need, \<open>AssertionError\<close>.
\<close>

theorem truncated_window_outcome:
  assumes "map_of (pz_files self) name = Some info"
    and "pz_m self = Some m"
    and "length (py_slice m (header_offset info) (header_offset info + 30)) = 30"
    and "field (py_slice m (header_offset info) (header_offset info + 30)) 0 4 = 0x4034B50"
  shows "let header = py_slice m (header_offset info) (header_offset info + 30);
             start = header_offset info + 30 + field header 26 2 + field header 28 2;
             window = py_slice m start (start + compress_size info);
             method = field header 8 2
         in length window = min (compress_size info) (length m - start)
            \<and> (method = 0 \<longrightarrow> read zd ld self name = (Inr window, self))
            \<and> (method = 8 \<longrightarrow> read zd ld self name = (zd window, self))
            \<and> (method = 14 \<and> 4 + field window 2 2 \<le> length window \<longrightarrow>
                 read zd ld self name =
                   (ld (py_slice window 4 (4 + field window 2 2))
                       (drop (4 + field window 2 2) window), self))
            \<and> (method = 14 \<and> length window < 4 \<longrightarrow>
                 read zd ld self name = (Inl StructError, self))
            \<and> (method = 14 \<and> 4 \<le> length window \<and> length window < 4 + field window 2 2 \<longrightarrow>
                 read zd ld self name = (Inl AssertionError, self))"
proof -
  define header where "header = py_slice m (header_offset info) (header_offset info + 30)"
  define start where
    "start = header_offset info + 30 + field header 26 2 + field header 28 2"
  define window where "window = py_slice m start (start + compress_size info)"
  have r: "read zd ld self name = (decompress zd ld (field header 8 2) window, self)"
    unfolding window_def start_def header_def by (rule read_entry [OF assms])
  have len: "length window = min (compress_size info) (length m - start)"
    by (simp add: window_def length_py_slice)
  have stored: "read zd ld self name = (Inr window, self)" if "field header 8 2 = 0"
    using r that by (simp add: decompress_def)
  have deflate: "read zd ld self name = (zd window, self)" if "field header 8 2 = 8"
    using r that by (simp add: decompress_def)
  have lzma: "read zd ld self name =
      (ld (py_slice window 4 (4 + field window 2 2)) (drop (4 + field window 2 2) window), self)"
    if "field header 8 2 = 14" and "4 + field window 2 2 \<le> length window"
    using r that by (simp add: decompress_def Let_def)
  have short: "read zd ld self name = (Inl StructError, self)"
    if "field header 8 2 = 14" and "length window < 4"
    using r that by (simp add: decompress_def)
  have props: "read zd ld self name = (Inl AssertionError, self)"
    if "field header 8 2 = 14" and "4 \<le> length window"
      and "length window < 4 + field window 2 2"
    using r that by (simp add: decompress_def Let_def)
  from len stored deflate lzma short props show ?thesis
    unfolding Let_def header_def [symmetric] start_def [symmetric] window_def [symmetric]
    by blast
qed


lemma lzma_cut_45: "take 45 lzma_zip =
  [0x50, 0x4B, 0x03, 0x04, 0x3F, 0x00, 0x02, 0x00, 0x0E, 0x00, 0x00, 0x00, 0x21, 0x00, 0x86, 0xA6,
   0x10, 0x36, 0x18, 0x00, 0x00, 0x00, 0x05, 0x00, 0x00, 0x00, 0x01, 0x00, 0x00, 0x00, 0x6C, 0x09,
   0x04, 0x05, 0x00, 0x5D, 0x00, 0x00, 0x80, 0x00, 0x00, 0x34, 0x19, 0x49, 0xEE]"
  by (simp add: lzma_zip_def)

lemma deflate_cut: "take 35 deflate_zip =
  [0x50, 0x4B, 0x03, 0x04, 0x14, 0x00, 0x00, 0x00, 0x08, 0x00, 0x00, 0x00, 0x21, 0x00, 0xE3, 0x51,
   0x3D, 0x8D, 0x0A, 0x00, 0x00, 0x00, 0x17, 0x00, 0x00, 0x00, 0x01, 0x00, 0x00, 0x00, 0x64, 0xCB,
   0x48, 0xCD, 0xC9]"
  by (simp add: deflate_zip_def)

lemma deflate_lookup:
  "map_of (pz_files deflate_cut_reader) (ascii ''d'') =
     Some \<lparr>filename = ascii ''d'', header_offset = 0, CRC = 2369606115,
            compress_size = 10, file_size = 23\<rparr>"
  by (simp add: deflate_cut_reader_def deflate_files_def ascii_def)

theorem truncated_window_outcome_witness:
  "read echo_inflate echo_unlzma cut_reader (ascii ''a.txt'') = (Inr [0x79, 0x6F], cut_reader)
   \<and> field (py_slice (take 35 deflate_zip) 0 30) 8 2 = 8
   \<and> py_slice (take 35 deflate_zip) 31 41 = [0xCB, 0x48, 0xCD, 0xC9]
   \<and> read echo_inflate echo_unlzma deflate_cut_reader (ascii ''d'')
       = (Inr [0xCB, 0x48, 0xCD, 0xC9], deflate_cut_reader)
   \<and> field (py_slice (take 45 lzma_zip) 0 30) 8 2 = 14
   \<and> length (py_slice (take 45 lzma_zip) 31 55) = 14
   \<and> field (py_slice (take 45 lzma_zip) 31 55) 2 2 = 5
   \<and> read echo_inflate echo_unlzma (lzma_cut_reader\<lparr>pz_m := Some (take 45 lzma_zip)\<rparr>) (ascii ''l'')
       = (Inr [0x00, 0x34, 0x19, 0x49, 0xEE], lzma_cut_reader\<lparr>pz_m := Some (take 45 lzma_zip)\<rparr>)
   \<and> field (py_slice (take 33 lzma_zip) 0 30) 8 2 = 14
   \<and> length (py_slice (take 33 lzma_zip) 31 55) = 2
   \<and> read echo_inflate echo_unlzma lzma_cut_reader (ascii ''l'') = (Inl StructError, lzma_cut_reader)
   \<and> field (py_slice (take 37 lzma_zip) 0 30) 8 2 = 14
   \<and> length (py_slice (take 37 lzma_zip) 31 55) = 6
   \<and> field (py_slice (take 37 lzma_zip) 31 55) 2 2 = 5
   \<and> read echo_inflate echo_unlzma (lzma_cut_reader\<lparr>pz_m := Some (take 37 lzma_zip)\<rparr>) (ascii ''l'')
       = (Inl AssertionError, lzma_cut_reader\<lparr>pz_m := Some (take 37 lzma_zip)\<rparr>)"
proof -
  let ?info = "\<lparr>filename = ascii ''a.txt'', header_offset = 74, CRC = 174976507,
            compress_size = 3, file_size = 3\<rparr>"
  let ?linfo = "\<lparr>filename = ascii ''l'', header_offset = 0, CRC = 907060870,
            compress_size = 24, file_size = 5\<rparr>"
  let ?dinfo = "\<lparr>filename = ascii ''d'', header_offset = 0, CRC = 2369606115,
            compress_size = 10, file_size = 23\<rparr>"
  let ?r37 = "lzma_cut_reader\<lparr>pz_m := Some (take 37 lzma_zip)\<rparr>"
  let ?r45 = "lzma_cut_reader\<lparr>pz_m := Some (take 45 lzma_zip)\<rparr>"
  \<comment> \<open>stored\<close>
  have m: "pz_m cut_reader = Some (take 111 example_zip)"
    by (simp add: cut_reader_def)
  have l: "length (py_slice (take 111 example_zip) (header_offset ?info) (header_offset ?info + 30))
      = 30"
    by (simp add: cut_local_a)
  have s: "field (py_slice (take 111 example_zip) (header_offset ?info) (header_offset ?info + 30)) 0 4
      = 0x4034B50"
    by (simp add: cut_local_a) (simp add: field_def py_slice_def)
  have f: "field (py_slice (take 111 example_zip) 74 104) 8 2 = 0"
    "field (py_slice (take 111 example_zip) 74 104) 26 2 = 5"
    "field (py_slice (take 111 example_zip) 74 104) 28 2 = 0"
    unfolding cut_local_a by (simp_all add: field_def py_slice_def)
  have w: "py_slice (take 111 example_zip) 109 112 = [0x79, 0x6F]"
    by (simp add: example_zip_def py_slice_def)
  have stored: "read echo_inflate echo_unlzma cut_reader (ascii ''a.txt'') = (Inr [0x79, 0x6F], cut_reader)"
    using truncated_window_outcome [OF cut_lookup_a m l s, of echo_inflate echo_unlzma] f w
    by (simp add: Let_def)
  \<comment> \<open>DEFLATE\<close>
  have md: "pz_m deflate_cut_reader = Some (take 35 deflate_zip)"
    by (simp add: deflate_cut_reader_def)
  have ld: "length (py_slice (take 35 deflate_zip) (header_offset ?dinfo) (header_offset ?dinfo + 30))
      = 30"
    unfolding deflate_cut by (simp add: py_slice_def)
  have sd: "field (py_slice (take 35 deflate_zip) (header_offset ?dinfo) (header_offset ?dinfo + 30)) 0 4
      = 0x4034B50"
    unfolding deflate_cut by (simp add: field_def py_slice_def)
  have fd: "field (py_slice (take 35 deflate_zip) 0 30) 8 2 = 8"
    "field (py_slice (take 35 deflate_zip) 0 30) 26 2 = 1"
    "field (py_slice (take 35 deflate_zip) 0 30) 28 2 = 0"
    unfolding deflate_cut by (simp_all add: field_def py_slice_def)
  have wd: "py_slice (take 35 deflate_zip) 31 41 = [0xCB, 0x48, 0xCD, 0xC9]"
    unfolding deflate_cut by (simp add: py_slice_def)
  have deflate: "read echo_inflate echo_unlzma deflate_cut_reader (ascii ''d'')
       = (Inr [0xCB, 0x48, 0xCD, 0xC9], deflate_cut_reader)"
    using truncated_window_outcome [OF deflate_lookup md ld sd, of echo_inflate echo_unlzma] fd wd
    by (simp add: Let_def echo_inflate_def)
  \<comment> \<open>LZMA, 14 bytes left\<close>
  have k45: "map_of (pz_files ?r45) (ascii ''l'') = Some ?linfo"
    using lzma_lookup by simp
  have m45: "pz_m ?r45 = Some (take 45 lzma_zip)"
    by simp
  have l45: "length (py_slice (take 45 lzma_zip) (header_offset ?linfo) (header_offset ?linfo + 30))
      = 30"
    unfolding lzma_cut_45 by (simp add: py_slice_def)
  have s45: "field (py_slice (take 45 lzma_zip) (header_offset ?linfo) (header_offset ?linfo + 30)) 0 4
      = 0x4034B50"
    unfolding lzma_cut_45 by (simp add: field_def py_slice_def)
  have f45: "field (py_slice (take 45 lzma_zip) 0 30) 8 2 = 14"
    "field (py_slice (take 45 lzma_zip) 0 30) 26 2 = 1"
    "field (py_slice (take 45 lzma_zip) 0 30) 28 2 = 0"
    unfolding lzma_cut_45 by (simp_all add: field_def py_slice_def)
  have v45: "py_slice (take 45 lzma_zip) 31 55 =
      [0x09, 0x04, 0x05, 0x00, 0x5D, 0x00, 0x00, 0x80, 0x00, 0x00, 0x34, 0x19, 0x49, 0xEE]"
    unfolding lzma_cut_45 by (simp add: py_slice_def)
  have w45: "length (py_slice (take 45 lzma_zip) 31 55) = 14"
    "field (py_slice (take 45 lzma_zip) 31 55) 2 2 = 5"
    "drop 9 (py_slice (take 45 lzma_zip) 31 55) = [0x00, 0x34, 0x19, 0x49, 0xEE]"
    unfolding v45 by (simp_all add: field_def py_slice_def)
  have long: "read echo_inflate echo_unlzma ?r45 (ascii ''l'')
      = (Inr [0x00, 0x34, 0x19, 0x49, 0xEE], ?r45)"
    using truncated_window_outcome [OF k45 m45 l45 s45, of echo_inflate echo_unlzma] f45 w45
    by (simp add: Let_def echo_unlzma_def)
  \<comment> \<open>LZMA, 2 bytes left\<close>
  have m33: "pz_m lzma_cut_reader = Some (take 33 lzma_zip)"
    by (simp add: lzma_cut_reader_def)
  have l33: "length (py_slice (take 33 lzma_zip) (header_offset ?linfo) (header_offset ?linfo + 30))
      = 30"
    unfolding lzma_cut by (simp add: py_slice_def)
  have s33: "field (py_slice (take 33 lzma_zip) (header_offset ?linfo) (header_offset ?linfo + 30)) 0 4
      = 0x4034B50"
    unfolding lzma_cut by (simp add: field_def py_slice_def)
  have f33: "field (py_slice (take 33 lzma_zip) 0 30) 8 2 = 14"
    "field (py_slice (take 33 lzma_zip) 0 30) 26 2 = 1"
    "field (py_slice (take 33 lzma_zip) 0 30) 28 2 = 0"
    unfolding lzma_cut by (simp_all add: field_def py_slice_def)
  have w33: "length (py_slice (take 33 lzma_zip) 31 55) = 2"
    unfolding lzma_cut by (simp add: py_slice_def)
  have struct: "read echo_inflate echo_unlzma lzma_cut_reader (ascii ''l'')
      = (Inl StructError, lzma_cut_reader)"
    using truncated_window_outcome [OF lzma_lookup m33 l33 s33, of echo_inflate echo_unlzma] f33 w33
    by (simp add: Let_def)
  \<comment> \<open>LZMA, 6 bytes left\<close>
  have k37: "map_of (pz_files ?r37) (ascii ''l'') = Some ?linfo"
    using lzma_lookup by simp
  have m37: "pz_m ?r37 = Some (take 37 lzma_zip)"
    by simp
  have l37: "length (py_slice (take 37 lzma_zip) (header_offset ?linfo) (header_offset ?linfo + 30))
      = 30"
    unfolding lzma_cut_37 by (simp add: py_slice_def)
  have s37: "field (py_slice (take 37 lzma_zip) (header_offset ?linfo) (header_offset ?linfo + 30)) 0 4
      = 0x4034B50"
    unfolding lzma_cut_37 by (simp add: field_def py_slice_def)
  have f37: "field (py_slice (take 37 lzma_zip) 0 30) 8 2 = 14"
    "field (py_slice (take 37 lzma_zip) 0 30) 26 2 = 1"
    "field (py_slice (take 37 lzma_zip) 0 30) 28 2 = 0"
    unfolding lzma_cut_37 by (simp_all add: field_def py_slice_def)
  have w37: "length (py_slice (take 37 lzma_zip) 31 55) = 6"
    "field (py_slice (take 37 lzma_zip) 31 55) 2 2 = 5"
    unfolding lzma_cut_37 by (simp_all add: field_def py_slice_def)
  have assertion: "read echo_inflate echo_unlzma ?r37 (ascii ''l'') = (Inl AssertionError, ?r37)"
    using truncated_window_outcome [OF k37 m37 l37 s37, of echo_inflate echo_unlzma] f37 w37
    by (simp add: Let_def)
  from stored fd(1) wd deflate f45(1) w45(1,2) long f33(1) w33 struct f37(1) w37 assertion
  show ?thesis by (intro conjI)
qed

subsection \<open>Reading twice\<close>

text \<open>\<open>read\<close> assigns no attribute: it returns the object it was given.\<close>

lemma read_leaves_object: "snd (read zd ld self name) = self"
  by (simp add: read_def split: option.splits)

subsection \<open>The zip64 extra field\<close>

text \<open>
  What the three blocks of lines 145 to 158 do. A field that is not \<open>0xFFFFFFFF\<close> is
  left as it is; a field that is needs eight bytes of \<open>extra\<close>. The two sizes are the
  first eight bytes of what is left of \<open>extra\<close>; the header offset is its last eight.
\<close>

lemma zip64_first_cases:
  "zip64_first v extra =
     (if v \<noteq> 0xFFFFFFFF then Inr (v, extra)
      else if length extra < 8 then Inl AssertionError
      else Inr (le (take 8 extra), drop 8 extra))"
  by (simp add: zip64_first_def)

lemma zip64_last_cases:
  "zip64_last v extra =
     (if v \<noteq> 0xFFFFFFFF then Inr (v, extra)
      else if length extra < 8 then Inl AssertionError
      else Inr (le (drop (length extra - 8) extra), drop 8 extra))"
  by (simp add: zip64_last_def last_n_def)

lemma zip64_fields_sizes:
  assumes "zip64_fields uncompressed_size compressed_size offset extra = Inr (u, c, off)"
  shows "u = (if uncompressed_size = 0xFFFFFFFF then le (take 8 (drop 4 extra))
              else uncompressed_size)"
    and "c = (if compressed_size \<noteq> 0xFFFFFFFF then compressed_size
              else if uncompressed_size = 0xFFFFFFFF then le (take 8 (drop 12 extra))
              else le (take 8 (drop 4 extra)))"
    and "offset \<noteq> 0xFFFFFFFF \<Longrightarrow> off = offset"
  using assms
  by (auto simp: zip64_fields_def zip64_first_def zip64_last_def
      split: if_splits sum.splits prod.splits)

lemma zip64_fields_offset_only:
  assumes "uncompressed_size \<noteq> 0xFFFFFFFF" and "compressed_size \<noteq> 0xFFFFFFFF"
    and "12 \<le> length extra"
  shows "zip64_fields uncompressed_size compressed_size 0xFFFFFFFF extra =
           Inr (uncompressed_size, compressed_size, le (drop (length extra - 8) extra))"
  using assms by (simp add: zip64_fields_def zip64_first_def zip64_last_def last_n_def)

text \<open>
  C1 fails on the code for the header offset. In \<open>forced_zip64_zip\<close> the extra field of
  the entry is the zip64 record, whose eight bytes (90 to 97) hold the offset 0, and a
  time stamp record after it. The parser takes the last eight bytes of the extra field
  (99 to 106) for the offset, so that the entry of the index points far behind the end
  of the archive and \<open>read\<close> finds no local header.
\<close>

theorem zip64_offset_taken_from_end:
  "py_slice forced_zip64_zip 86 107 =
     [0x01, 0x00, 0x08, 0x00, 0, 0, 0, 0, 0, 0, 0, 0,
      0x55, 0x54, 0x05, 0x00, 0x01, 0x00, 0x00, 0x00, 0x65]
   \<and> le (py_slice forced_zip64_zip 90 98) = 0
   \<and> read_eocd_mmap python_codec forced_zip64_zip =
       Inr [(ascii ''big'', \<lparr>filename = ascii ''big'', header_offset = 7277816997847500116,
               CRC = 2918445923, compress_size = 4, file_size = 4\<rparr>)]
   \<and> read echo_inflate echo_unlzma
         \<lparr>pz_filename = ''big.zip'',
          pz_files = [(ascii ''big'', \<lparr>filename = ascii ''big'',
             header_offset = 7277816997847500116, CRC = 2918445923, compress_size = 4,
             file_size = 4\<rparr>)],
          pz_m = Some forced_zip64_zip\<rparr> (ascii ''big'') =
       (Inl (ValueError (HeaderTooSmall (ascii ''big'') 0)),
        \<lparr>pz_filename = ''big.zip'',
          pz_files = [(ascii ''big'', \<lparr>filename = ascii ''big'',
             header_offset = 7277816997847500116, CRC = 2918445923, compress_size = 4,
             file_size = 4\<rparr>)],
          pz_m = Some forced_zip64_zip\<rparr>)"
proof -
  have 1: "py_slice forced_zip64_zip 86 107 =
     [0x01, 0x00, 0x08, 0x00, 0, 0, 0, 0, 0, 0, 0, 0,
      0x55, 0x54, 0x05, 0x00, 0x01, 0x00, 0x00, 0x00, 0x65]"
    by (simp add: forced_zip64_zip_def py_slice_def)
  have 2: "le (py_slice forced_zip64_zip 90 98) = 0"
    by (simp add: forced_zip64_zip_def py_slice_def)
  have e: "read_eocd forced_zip64_zip = Inr (1, 37)"
    by (simp add: forced_zip64_zip_def parse_defs)
  have h: "read_header python_codec forced_zip64_zip 37 =
      Inr (\<lparr>filename = ascii ''big'', header_offset = 7277816997847500116,
              CRC = 2918445923, compress_size = 4, file_size = 4\<rparr>, 107)"
    by (simp add: forced_zip64_zip_def ascii_def parse_defs)
  have 3: "read_eocd_mmap python_codec forced_zip64_zip =
       Inr [(ascii ''big'', \<lparr>filename = ascii ''big'', header_offset = 7277816997847500116,
               CRC = 2918445923, compress_size = 4, file_size = 4\<rparr>)]"
    by (simp add: read_eocd_mmap_def e h)
  have "length forced_zip64_zip = 129"
    by (simp add: forced_zip64_zip_def)
  then have "py_slice forced_zip64_zip 7277816997847500116 (7277816997847500116 + 30) = []"
    by (simp add: py_slice_def)
  then have 4: "read echo_inflate echo_unlzma
         \<lparr>pz_filename = ''big.zip'',
          pz_files = [(ascii ''big'', \<lparr>filename = ascii ''big'',
             header_offset = 7277816997847500116, CRC = 2918445923, compress_size = 4,
             file_size = 4\<rparr>)],
          pz_m = Some forced_zip64_zip\<rparr> (ascii ''big'') =
       (Inl (ValueError (HeaderTooSmall (ascii ''big'') 0)),
        \<lparr>pz_filename = ''big.zip'',
          pz_files = [(ascii ''big'', \<lparr>filename = ascii ''big'',
             header_offset = 7277816997847500116, CRC = 2918445923, compress_size = 4,
             file_size = 4\<rparr>)],
          pz_m = Some forced_zip64_zip\<rparr>)"
    by (simp add: read_def extract_entry_def)
  from 1 2 3 4 show ?thesis by (intro conjI)
qed

subsection \<open>The index and the directory scan\<close>

lemma map_of_setitem: "map_of (setitem d k v) = (map_of d)(k \<mapsto> v)"
  by (induction d k v rule: setitem.induct) (auto simp: fun_eq_iff)

lemma keys_setitem:
  "map fst (setitem d k v) = (if k \<in> set (map fst d) then map fst d else map fst d @ [k])"
  by (induction d k v rule: setitem.induct) auto

lemma named_setitem:
  "\<forall>(k', v') \<in> set d. f v' = k' \<Longrightarrow> \<forall>(k', v') \<in> set (setitem d (f v) v). f v' = k'"
  by (induction d "f v" v rule: setitem.induct) auto

lemma map_of_store: "map_of (store files info) = (map_of files)(filename info \<mapsto> info)"
  by (simp add: store_def map_of_setitem)

lemma keys_store:
  "map fst (store files info) =
     (if filename info \<in> set (map fst files) then map fst files
      else map fst files @ [filename info])"
  by (simp add: store_def keys_setitem)

text \<open>The loop builds its dictionary by storing the entries of the scan one by one.\<close>

lemma read_headers_scan:
  "read_headers decode m mmap_offset n files =
     (case scan_headers decode m mmap_offset n of
        Inl e \<Rightarrow> Inl e
      | Inr infos \<Rightarrow> Inr (foldl store files infos))"
proof (induction n arbitrary: mmap_offset files)
  case 0
  show ?case by simp
next
  case (Suc n)
  show ?case
  proof (cases "read_header decode m mmap_offset")
    case (Inl e)
    then show ?thesis by simp
  next
    case (Inr r)
    obtain info off where r: "r = (info, off)" by (cases r)
    have "setitem files (filename info) info = store files info"
      by (simp add: store_def)
    then show ?thesis
      using Inr r Suc.IH [of off "store files info"] by (simp split: sum.splits)
  qed
qed

lemma last_entry_Cons:
  "last_entry name (info # infos) =
     (case last_entry name infos of
        Some x \<Rightarrow> Some x
      | None \<Rightarrow> if filename info = name then Some info else None)"
  by (auto simp: last_entry_def split: list.splits)

lemma map_of_foldl_store:
  "map_of (foldl store files infos) name =
     (case last_entry name infos of None \<Rightarrow> map_of files name | Some x \<Rightarrow> Some x)"
proof (induction infos arbitrary: files)
  case Nil
  show ?case by (simp add: last_entry_def)
next
  case (Cons info infos)
  show ?case
    by (simp add: Cons.IH last_entry_Cons map_of_store split: option.splits)
qed

lemma keys_foldl_store:
  "map fst (foldl store files infos) =
     map fst files @ filter (\<lambda>k. k \<notin> set (map fst files)) (first_occurrences (map filename infos))"
proof (induction infos arbitrary: files)
  case Nil
  show ?case by simp
next
  case (Cons info infos)
  have "filter (\<lambda>k. k \<notin> set (map fst files)) (filter (\<lambda>y. y \<noteq> filename info) xs) =
        filter (\<lambda>k. k \<notin> set (map fst files)) xs"
    if "filename info \<in> set (map fst files)" for xs :: "str list"
    using that by (induction xs) auto
  moreover have "filter (\<lambda>k. k \<notin> set (map fst files) \<and> k \<noteq> filename info) xs =
        filter (\<lambda>k. k \<notin> set (map fst files)) (filter (\<lambda>y. y \<noteq> filename info) xs)"
    for xs :: "str list"
    by (induction xs) auto
  ultimately show ?case
    by (simp add: Cons.IH keys_store)
qed

lemma distinct_first_occurrences: "distinct (first_occurrences xs)"
  by (induction xs) auto

lemma named_foldl_store:
  "\<forall>(k, v) \<in> set files. filename v = k \<Longrightarrow>
   \<forall>(k, v) \<in> set (foldl store files infos). filename v = k"
proof (induction infos arbitrary: files)
  case Nil
  then show ?case by simp
next
  case (Cons info infos)
  have "\<forall>(k, v) \<in> set (store files info). filename v = k"
    unfolding store_def using Cons.prems by (rule named_setitem)
  then show ?case using Cons.IH by simp
qed

lemma parsed_index:
  assumes "read_eocd_mmap decode m = Inr files"
  shows "\<exists>infos. scan_directory decode m = Inr infos
           \<and> distinct (dict_keys files)
           \<and> (\<forall>name. map_of files name = last_entry name infos)
           \<and> dict_keys files = first_occurrences (map filename infos)
           \<and> (\<forall>i < length files. dict_keys files ! i = filename (dict_values files ! i))"
proof -
  obtain n off where eocd: "read_eocd m = Inr (n, off)"
    using assms by (auto simp: read_eocd_mmap_def split: sum.splits)
  then have rh: "read_headers decode m off n [] = Inr files"
    using assms by (simp add: read_eocd_mmap_def)
  then obtain infos where scan: "scan_headers decode m off n = Inr infos"
    and files: "files = foldl store [] infos"
    by (auto simp: read_headers_scan split: sum.splits)
  have sd: "scan_directory decode m = Inr infos"
    by (simp add: scan_directory_def eocd scan)
  have keys: "dict_keys files = first_occurrences (map filename infos)"
    by (simp add: dict_keys_def files keys_foldl_store)
  have dist: "distinct (dict_keys files)"
    by (simp add: keys distinct_first_occurrences)
  have look: "map_of files name = last_entry name infos" for name
    by (simp add: files map_of_foldl_store split: option.splits)
  have "\<forall>(k, v) \<in> set files. filename v = k"
    unfolding files by (rule named_foldl_store) simp
  then have nth: "dict_keys files ! i = filename (dict_values files ! i)" if "i < length files" for i
    using that nth_mem [of i files] by (cases "files ! i") (auto simp: dict_keys_def dict_values_def)
  from sd dist look keys nth show ?thesis by blast
qed


lemma first_occurrences_distinct: "distinct xs \<Longrightarrow> first_occurrences xs = xs"
proof (induction xs)
  case Nil
  show ?case by simp
next
  case (Cons x xs)
  then have "filter (\<lambda>y. y \<noteq> x) xs = xs"
    by (auto intro: filter_True)
  then show ?case using Cons by simp
qed










subsection \<open>The names of the index\<close>

lemma set_first_occurrences: "set (first_occurrences xs) = set xs"
  by (induction xs) auto

lemma last_entry_Some:
  assumes "last_entry name infos = Some x"
  shows "filename x = name \<and> x \<in> set infos"
proof -
  obtain y ys where f: "filter (\<lambda>info. filename info = name) infos = y # ys"
    and x: "x = last (y # ys)"
    using assms by (auto simp: last_entry_def split: list.splits)
  have "x \<in> set (filter (\<lambda>info. filename info = name) infos)"
    unfolding f x by (rule last_in_set) simp
  then show ?thesis by simp
qed

lemma last_entry_found:
  assumes "name \<in> set (map filename infos)"
  shows "\<exists>x. last_entry name infos = Some x"
proof -
  have "filter (\<lambda>info. filename info = name) infos \<noteq> []"
    using assms by (auto simp: filter_empty_conv)
  then show ?thesis by (auto simp: last_entry_def split: list.splits)
qed

lemma read_header_stored_name:
  assumes "read_header decode m mmap_offset = Inr (info, mmap_offset')"
  shows "decode_filename decode (stored_name m mmap_offset) = Inr (filename info)"
  unfolding stored_name_def using assms by (rule read_header_name)

text \<open>The names of the scanned entries are the stored names, decoded one by one.\<close>

lemma scan_names:
  assumes "scan_headers decode m mmap_offset n = Inr infos"
  shows "\<exists>raws. scan_stored_names decode m mmap_offset n = Inr raws
           \<and> map (decode_filename decode) raws = map (\<lambda>info. Inr (filename info)) infos"
  using assms
proof (induction n arbitrary: mmap_offset infos)
  case 0
  then show ?case by simp
next
  case (Suc n)
  from Suc.prems obtain info off' rest where
    h: "read_header decode m mmap_offset = Inr (info, off')"
    and r: "scan_headers decode m off' n = Inr rest"
    and i: "infos = info # rest"
    by (auto split: sum.splits prod.splits)
  from Suc.IH [OF r] obtain raws where
    s: "scan_stored_names decode m off' n = Inr raws"
    and d: "map (decode_filename decode) raws = map (\<lambda>info. Inr (filename info)) rest"
    by blast
  have "scan_stored_names decode m mmap_offset (Suc n) = Inr (stored_name m mmap_offset # raws)"
    by (simp add: h s)
  moreover have "map (decode_filename decode) (stored_name m mmap_offset # raws) =
      map (\<lambda>info. Inr (filename info)) infos"
    by (simp add: i d read_header_stored_name [OF h])
  ultimately show ?case by blast
qed

text \<open>A codec that agrees on the stripped stored names builds the same dictionary.\<close>

lemma read_headers_cong:
  assumes "scan_stored_names decode m mmap_offset n = Inr raws"
    and "\<forall>raw \<in> set raws. \<forall>encoding.
           decode' encoding (rstrip_nul raw) = decode encoding (rstrip_nul raw)"
  shows "read_headers decode' m mmap_offset n files = read_headers decode m mmap_offset n files"
  using assms
proof (induction n arbitrary: mmap_offset raws files)
  case 0
  show ?case by simp
next
  case (Suc n)
  from Suc.prems(1) obtain info off' rest where
    h: "read_header decode m mmap_offset = Inr (info, off')"
    and r: "scan_stored_names decode m off' n = Inr rest"
    and i: "raws = stored_name m mmap_offset # rest"
    by (auto split: sum.splits prod.splits)
  have agree: "\<forall>encoding. decode' encoding (rstrip_nul (stored_name m mmap_offset))
      = decode encoding (rstrip_nul (stored_name m mmap_offset))"
    using Suc.prems(2) i by simp
  have "decode_filename decode' (stored_name m mmap_offset)
      = decode_filename decode (stored_name m mmap_offset)"
    unfolding decode_filename_def using agree by (rule try_encodings_cong)
  then have h': "read_header decode' m mmap_offset = read_header decode m mmap_offset"
    unfolding stored_name_def by (rule read_header_cong)
  have rest: "\<forall>raw \<in> set rest. \<forall>encoding.
           decode' encoding (rstrip_nul raw) = decode encoding (rstrip_nul raw)"
    using Suc.prems(2) i by simp
  show ?case
    by (simp add: h' h Suc.IH [OF r rest])
qed

text \<open>
  C9. For an object that \<open>__init__\<close> builds by parsing the archive, and the stored names
  of its central directory: each stored name is its stripped bytes followed by NUL bytes
  only; the stripped bytes do not end in a NUL byte; one of the codecs decodes them to a
  name that is a key of the index, with an entry of that name; every key of the index is
  such a decoding; and a codec that agrees on the stripped bytes builds the same object.
\<close>

theorem names_indexed_nul_stripped:
  assumes "init decode fs file ''r'' None = Inr self"
  shows "\<exists>m raws. fs file = Some m \<and> stored_names decode m = Inr raws
           \<and> (\<forall>raw \<in> set raws.
                 (\<exists>k. raw = rstrip_nul raw @ replicate k 0)
                 \<and> (rstrip_nul raw = [] \<or> last (rstrip_nul raw) \<noteq> 0)
                 \<and> (\<exists>encoding name info.
                       decode encoding (rstrip_nul raw) = Some name
                       \<and> decode_filename decode raw = Inr name
                       \<and> contains_file self name
                       \<and> map_of (pz_files self) name = Some info
                       \<and> filename info = name))
           \<and> (\<forall>name. contains_file self name \<longrightarrow>
                 (\<exists>raw \<in> set raws. decode_filename decode raw = Inr name))
           \<and> (\<forall>decode'.
                 (\<forall>raw \<in> set raws. \<forall>encoding.
                    decode' encoding (rstrip_nul raw) = decode encoding (rstrip_nul raw))
                 \<longrightarrow> init decode' fs file ''r'' None = Inr self)"
proof -
  obtain m where m: "fs file = Some m" and om: "open_mmap fs file = Inr m"
    using assms by (auto simp: init_def open_mmap_def split: option.splits if_splits sum.splits)
  then have parse: "read_eocd_mmap decode m = Inr (pz_files self)"
    using assms by (auto simp: init_def split: sum.splits)
  have self: "self = \<lparr>pz_filename = file, pz_files = pz_files self, pz_m = Some m\<rparr>"
    using assms om by (auto simp: init_def split: sum.splits)
  obtain n off where eocd: "read_eocd m = Inr (n, off)"
    using parse by (auto simp: read_eocd_mmap_def split: sum.splits)
  obtain infos where scan: "scan_directory decode m = Inr infos"
    and look: "\<forall>name. map_of (pz_files self) name = last_entry name infos"
    and keys: "dict_keys (pz_files self) = first_occurrences (map filename infos)"
    using parsed_index [OF parse] by blast
  have sh: "scan_headers decode m off n = Inr infos"
    using scan by (simp add: scan_directory_def eocd)
  obtain raws where raws: "scan_stored_names decode m off n = Inr raws"
    and names: "map (decode_filename decode) raws = map (\<lambda>info. Inr (filename info)) infos"
    using scan_names [OF sh] by blast
  have sn: "stored_names decode m = Inr raws"
    by (simp add: stored_names_def eocd raws)
  have keyset: "set (dict_keys (pz_files self)) = set (map filename infos)"
    by (simp add: keys set_first_occurrences)
  have each: "(\<exists>k. raw = rstrip_nul raw @ replicate k 0)
        \<and> (rstrip_nul raw = [] \<or> last (rstrip_nul raw) \<noteq> 0)
        \<and> (\<exists>encoding name info.
              decode encoding (rstrip_nul raw) = Some name
              \<and> decode_filename decode raw = Inr name
              \<and> contains_file self name
              \<and> map_of (pz_files self) name = Some info
              \<and> filename info = name)" if "raw \<in> set raws" for raw
  proof -
    have "decode_filename decode raw \<in> set (map (\<lambda>info. Inr (filename info)) infos)"
      using that names by (metis image_eqI set_map)
    then obtain entry where e: "entry \<in> set infos"
      and d: "decode_filename decode raw = Inr (filename entry)"
      by auto
    obtain encoding where enc: "decode encoding (rstrip_nul raw) = Some (filename entry)"
      using d try_encodings_Inr unfolding decode_filename_def by blast
    have c: "contains_file self (filename entry)"
      using e keyset by (simp add: contains_file_def)
    obtain info where i: "last_entry (filename entry) infos = Some info"
      using last_entry_found [of "filename entry" infos] e by auto
    then have "map_of (pz_files self) (filename entry) = Some info"
      and "filename info = filename entry"
      using look last_entry_Some [OF i] by simp_all
    with enc d c show ?thesis
      using rstrip_nul_replicate [of raw] rstrip_nul_last [of raw] by blast
  qed
  have cover: "\<exists>raw \<in> set raws. decode_filename decode raw = Inr name"
    if "contains_file self name" for name
  proof -
    have "name \<in> set (map filename infos)"
      using that keyset by (simp add: contains_file_def)
    then have "Inr name \<in> set (map (decode_filename decode) raws)"
      unfolding names by auto
    then show ?thesis by auto
  qed
  have same: "init decode' fs file ''r'' None = Inr self"
    if "\<forall>raw \<in> set raws. \<forall>encoding.
          decode' encoding (rstrip_nul raw) = decode encoding (rstrip_nul raw)" for decode'
  proof -
    have "read_headers decode' m off n [] = read_headers decode m off n []"
      using raws that by (rule read_headers_cong)
    then have "read_eocd_mmap decode' m = Inr (pz_files self)"
      using parse by (simp add: read_eocd_mmap_def eocd)
    then have "init decode' fs file ''r'' None =
        Inr \<lparr>pz_filename = file, pz_files = pz_files self, pz_m = Some m\<rparr>"
      by (simp add: init_def om)
    then show ?thesis using self by simp
  qed
  from m sn each cover same show ?thesis by blast
qed


lemma example_stored_names:
  "stored_names python_codec example_zip =
     Inr [[0x61, 0x2E, 0x74, 0x78, 0x74], [0x75, 0x2E, 0x62, 0x69, 0x6E],
          [0x61, 0x2E, 0x74, 0x78, 0x74], [0x6E, 0, 0]]"
proof -
  have "stored_name example_zip 145 = [0x61, 0x2E, 0x74, 0x78, 0x74]"
    "stored_name example_zip 196 = [0x75, 0x2E, 0x62, 0x69, 0x6E]"
    "stored_name example_zip 247 = [0x61, 0x2E, 0x74, 0x78, 0x74]"
    "stored_name example_zip 298 = [0x6E, 0, 0]"
    by (simp_all add: stored_name_def field_def py_slice_def example_zip_def)
  then show ?thesis
    by (simp add: stored_names_def example_eocd four example_headers)
qed

lemma example_name_n:
  "decode_filename python_codec [0x6E, 0, 0] = Inr (ascii ''n'')"
  by (simp add: decode_filename_def rstrip_nul_def ascii_def)

theorem names_indexed_nul_stripped_witness:
  "init python_codec example_fs ''example.zip'' ''r'' None = Inr example_reader
   \<and> example_fs ''example.zip'' = Some example_zip
   \<and> stored_names python_codec example_zip =
       Inr [[0x61, 0x2E, 0x74, 0x78, 0x74], [0x75, 0x2E, 0x62, 0x69, 0x6E],
            [0x61, 0x2E, 0x74, 0x78, 0x74], [0x6E, 0, 0]]
   \<and> rstrip_nul [0x6E, 0, 0] = [0x6E]
   \<and> decode_filename python_codec [0x6E, 0, 0] = Inr (ascii ''n'')
   \<and> contains_file example_reader (ascii ''n'')
   \<and> (\<exists>info. map_of (pz_files example_reader) (ascii ''n'') = Some info
          \<and> filename info = ascii ''n'')
   \<and> \<not> contains_file example_reader [0x6E, 0, 0]"
proof -
  have fs: "example_fs ''example.zip'' = Some example_zip"
    by (simp add: example_fs_def)
  have strip: "rstrip_nul [0x6E, 0, 0] = [0x6E]"
    by (simp add: rstrip_nul_def)
  have literal: "\<not> contains_file example_reader [0x6E, 0, 0]"
    by (simp add: contains_file_def dict_keys_def example_reader_def example_files_def ascii_def)
  from names_indexed_nul_stripped [OF example_init] obtain m raws where
    m: "example_fs ''example.zip'' = Some m"
    and raws: "stored_names python_codec m = Inr raws"
    and each: "\<forall>raw \<in> set raws. \<exists>encoding name info.
        python_codec encoding (rstrip_nul raw) = Some name
        \<and> decode_filename python_codec raw = Inr name
        \<and> contains_file example_reader name
        \<and> map_of (pz_files example_reader) name = Some info
        \<and> filename info = name"
    by blast
  have "m = example_zip" using m fs by simp
  then have "raws = [[0x61, 0x2E, 0x74, 0x78, 0x74], [0x75, 0x2E, 0x62, 0x69, 0x6E],
          [0x61, 0x2E, 0x74, 0x78, 0x74], [0x6E, 0, 0]]"
    using raws example_stored_names by simp
  then have "[0x6E, 0, 0] \<in> set raws"
    by simp
  then obtain name info where
    "decode_filename python_codec [0x6E, 0, 0] = Inr name"
    and "contains_file example_reader name"
    and "map_of (pz_files example_reader) name = Some info"
    and "filename info = name"
    using each by blast
  then have indexed: "contains_file example_reader (ascii ''n'')"
    and entry: "\<exists>info. map_of (pz_files example_reader) (ascii ''n'') = Some info
          \<and> filename info = ascii ''n''"
    using example_name_n by auto
  from example_init fs example_stored_names strip example_name_n indexed entry literal
  show ?thesis by (intro conjI)
qed

end
